theory Spec2Isabelle
  imports Complex_Main
begin

section \<open>Values, errors and the host surface\<close>

text \<open>
  The program is one JavaScript module, \<^verbatim>\<open>cehighlighter.js\<close>. Its functions read and
  write three kinds of state: the module's own variables (\<^verbatim>\<open>settings\<close>,
  \<^verbatim>\<open>events\<close>, \<^verbatim>\<open>supports\<close>), the document (the editable elements and their
  subtrees) and the window's selection. All of it is gathered in the record \<open>page\<close>
  below and passed explicitly; a function that can throw returns a \<open>completion\<close>
  next to the state it leaves behind, so that what a throwing call has already changed
  stays visible.

  A finite JavaScript number is modelled by a rational (every finite double is one);
  \<^verbatim>\<open>NaN\<close> and the two infinities are values of their own.
\<close>

datatype jsval =
    JUndefined
  | JNull
  | JBool bool
  | JNum rat
  | JNaN
  | JInfinity bool
  | JString string
  | JFunction nat
  | JObject nat

text \<open>
  The module throws plain \<^verbatim>\<open>Error\<close> objects told apart by their message; each
  message is one constructor here:
  \<^item> \<open>UnsupportedHostError\<close>: 'CEHighlighter does not support that browser';
  \<^item> \<open>InvalidTargetError\<close>: 'Invalid `el` argument, HTMLElement required';
  \<^item> \<open>InvalidConfigError\<close>: 'Invalid `options` argument, object required';
  \<^item> \<open>UnsupportedEventError\<close>: 'No support for the event: ...';
  \<^item> \<open>InvalidHandlerError\<close>: 'Event callback must be a function';
  \<^item> \<open>InvalidOffsetError\<close>: 'Invalid `index` parameter: ...'.
  The others are raised by the language and the document themselves:
  \<open>SyntaxError\<close> and \<open>InvalidCharacterError\<close> are the two exceptions of a class
  list handed an unusable class name.
\<close>

datatype error =
    UnsupportedHostError
  | InvalidTargetError
  | InvalidConfigError
  | UnsupportedEventError
  | InvalidHandlerError
  | InvalidOffsetError
  | ReferenceError
  | TypeError
  | IndexSizeError
  | SyntaxError
  | InvalidCharacterError

datatype completion = Normal | Throw error

text \<open>
  A subtree of the document: only text nodes carry characters. The tag of an element
  is kept, its attributes are not (the module never reads them below the root).
\<close>

datatype node = Text string | Element string "node list"

text \<open>
  Node identity, as the selection and the tree walker see it. Editable elements live in
  a store indexed by \<open>nat\<close>; \<open>TextRef a k\<close> is the \<open>k\<close>-th text node (in document
  order, from 0) below element \<open>a\<close>, \<open>InnerRef a n\<close> a node below \<open>a\<close> that is not a
  text node, \<open>ElemRef a\<close> the element itself, \<open>OutsideRef n\<close> any node elsewhere in
  the document, and \<open>NullRef\<close> the \<^verbatim>\<open>null\<close> of a selection without range.
\<close>

datatype noderef =
    NullRef
  | ElemRef nat
  | TextRef nat nat
  | InnerRef nat nat
  | OutsideRef nat

record selection =
  anchorNode :: noderef
  anchorOffset :: nat
  focusNode :: noderef
  focusOffset :: nat

definition isCollapsed :: "selection \<Rightarrow> bool" where
  "isCollapsed sel =
     (anchorNode sel = focusNode sel \<and> anchorOffset sel = focusOffset sel)"

record pos =
  pos_start :: nat
  pos_end :: nat

datatype css = Keyword string | Px nat

datatype inst = Instance (el: nat)

datatype handler = OnPaste | OnInput | OnKeyPress

text \<open>
  A function object made by \<^verbatim>\<open>f.bind(this)\<close>: every call of \<^verbatim>\<open>bind\<close> makes a new
  object, so the object carries an identity \<open>fnid\<close> besides what it runs.
\<close>

record boundfn =
  fnid :: nat
  target :: handler
  bound_this :: inst

record listener =
  evtype :: string
  callback :: boundfn

record element =
  contenteditable :: "string option"
  classList :: "string list"
  style :: "string \<rightharpoonup> css"
  children :: "node list"
  listeners :: "listener list"

text \<open>
  The three regular expressions of the default rule set are literals of the source,
  all with the flags \<^verbatim>\<open>gi\<close>:
  \<^item> \<open>HashtagRegExp\<close>: \<^verbatim>\<open>/(^|\s)(#[a-z\d-]+)/gi\<close>;
  \<^item> \<open>UrlRegExp\<close>:
    \<^verbatim>\<open>/((https?):\/\/[\w-]+(\.[\w-]+)+([\w.,@?^=%&amp;:/~+#-]*[\w@?^=%&amp;/~+#-])?)/gi\<close>;
  \<^item> \<open>MentionRegExp\<close>: \<^verbatim>\<open>/(@([a-z\d_]+))/gi\<close>.
  A rule set given through the options may hold any pattern. \<open>LiteralRegExp s\<close> is
  the global pattern that matches the string \<open>s\<close> literally and has no group (as
  \<^verbatim>\<open>/amp;/g\<close> is for \<open>s = ''amp;''\<close>); \<open>HostRegExp n\<close> is any other global
  pattern, which the host's engine matches.
\<close>

datatype regexp =
    HashtagRegExp
  | UrlRegExp
  | MentionRegExp
  | LiteralRegExp string
  | HostRegExp nat

text \<open>
  What a pattern finds at one position of a string: the length of the match and the
  captures of its groups (\<open>None\<close> for a group that took no part). A matcher is given
  the string before the position and the string from the position on.
\<close>

type_synonym captures = "string option list"

type_synonym matcher = "string \<Rightarrow> string \<Rightarrow> (nat \<times> captures) option"

record rule =
  pattern :: regexp
  template :: string

record config =
  className :: string
  elastic :: bool
  regexs :: "rule list"

record options =
  opt_className :: "string option"
  opt_elastic :: "bool option"
  opt_regexs :: "rule list option"

datatype optarg = OptUndefined | OptNotObject | OptObject options

datatype elarg = NotHTMLElement | HTMLElement nat

record call =
  evtName :: string
  fn :: nat
  ctx :: inst

text \<open>
  What the module consumes from the host without defining it:
  \<^item> \<open>parseHTML\<close>, the parser behind the \<^verbatim>\<open>innerHTML\<close> setter;
  \<^item> \<open>innerText\<close>, the \<^verbatim>\<open>innerText\<close> getter, which reads the text of an element
    as it is rendered (it depends on the element's style and on what its subtree
    holds besides text);
  \<^item> \<open>offsetHeight\<close>, the layout height of an element in its current state;
  \<^item> \<open>execAt\<close>, the regular-expression engine for the patterns this theory does
    not spell out;
  \<^item> \<open>inputValue\<close>, the value a detached text input reads back after an assignment.
\<close>

record host =
  parseHTML :: "string \<Rightarrow> node list"
  innerText :: "element \<Rightarrow> string"
  offsetHeight :: "element \<Rightarrow> nat"
  execAt :: "nat \<Rightarrow> matcher"
  inputValue :: "string \<Rightarrow> string"

text \<open>
  The state. \<open>settings\<close>, \<open>events\<close> and \<open>supports\<close> are the module's variables of
  the same names (one of each for the whole module); \<open>elems\<close> is the store of
  editable elements; \<open>window_selection\<close> is what \<^verbatim>\<open>window.getSelection()\<close> returns;
  \<open>window_clipboardData\<close> is what \<^verbatim>\<open>window.clipboardData.getData('Text')\<close> returns
  where that legacy object exists; \<open>global_this\<close> is the value of a global variable
  named \<^verbatim>\<open>_this\<close>, when the page defines one; \<open>calls\<close> logs every invocation of a
  subscribed callback; \<open>nextFn\<close> is the identity the next function object gets;
  \<open>timers\<close> holds the tasks queued by \<^verbatim>\<open>setTimeout\<close>.
\<close>

record page =
  supports :: bool
  settings :: config
  events :: "string \<rightharpoonup> jsval"
  elems :: "nat \<Rightarrow> element"
  window_selection :: selection
  window_clipboardData :: "string option"
  global_this :: "inst option"
  calls :: "call list"
  nextFn :: nat
  timers :: "inst list"

record event =
  which :: nat
  clipboardData :: "string option"

section \<open>utils\<close>

text \<open>\<^verbatim>\<open>utils.extend(settings, options)\<close>: every own key of the options overwrites.\<close>

definition extend :: "config \<Rightarrow> optarg \<Rightarrow> config" where
  "extend defaults opts =
     (case opts of
        OptObject ob \<Rightarrow>
          \<lparr> className = (case opt_className ob of Some c \<Rightarrow> c | None \<Rightarrow> className defaults),
            elastic = (case opt_elastic ob of Some b \<Rightarrow> b | None \<Rightarrow> elastic defaults),
            regexs = (case opt_regexs ob of Some r \<Rightarrow> r | None \<Rightarrow> regexs defaults) \<rparr>
      | _ \<Rightarrow> defaults)"

fun textNodes :: "node \<Rightarrow> string list" where
  "textNodes (Text s) = [s]"
| "textNodes (Element tag cs) = concat (map textNodes cs)"

text \<open>
  \<^verbatim>\<open>utils.createTreeWalker(node)\<close> with \<^verbatim>\<open>NodeFilter.SHOW_TEXT\<close>: the character data
  of the text nodes below the root, in document order. The \<open>k\<close>-th entry belongs to
  the node \<open>TextRef a k\<close>.
\<close>

definition createTreeWalker :: "element \<Rightarrow> string list" where
  "createTreeWalker rootEl = concat (map textNodes (children rootEl))"

text \<open>
  The logical text of the specification's data model: the text nodes' data
  concatenated in document order. It is what the two walks below count in; what
  \<^verbatim>\<open>el.innerText\<close> returns is the host's \<open>innerText\<close>, which agrees with it on a
  rendered tree of text and inline elements and not in general.
\<close>

definition logicalText :: "element \<Rightarrow> string" where
  "logicalText rootEl = concat (createTreeWalker rootEl)"

text \<open>
  The loop of \<^verbatim>\<open>utils.getCaretOffsetWithin\<close>. \<open>k\<close> is the index of the walker's
  current node, \<open>ps\<close> the object \<^verbatim>\<open>pos\<close>, \<open>b\<close> the flag \<^verbatim>\<open>isBeyondStart\<close>.
\<close>

fun captureLoop :: "selection \<Rightarrow> nat \<Rightarrow> string list \<Rightarrow> nat \<Rightarrow> pos \<Rightarrow> bool \<Rightarrow> pos" where
  "captureLoop sel a [] k ps b = ps"
| "captureLoop sel a (data # rest) k ps b =
     (if \<not> b \<and> TextRef a k = anchorNode sel then
        (let ps1 = ps\<lparr>pos_start := pos_start ps + anchorOffset sel\<rparr> in
         if isCollapsed sel then ps1\<lparr>pos_end := pos_start ps1\<rparr>
         else if TextRef a k = focusNode sel
           then ps1\<lparr>pos_end := pos_end ps1 + focusOffset sel\<rparr>
           else captureLoop sel a rest (Suc k)
                  (ps1\<lparr>pos_end := pos_end ps1 + length data\<rparr>) True)
      else
        (let ps1 = (if \<not> b then ps\<lparr>pos_start := pos_start ps + length data\<rparr> else ps) in
         if \<not> isCollapsed sel \<and> TextRef a k = focusNode sel
           then ps1\<lparr>pos_end := pos_end ps1 + focusOffset sel\<rparr>
         else if \<not> isCollapsed sel
           then captureLoop sel a rest (Suc k)
                  (ps1\<lparr>pos_end := pos_end ps1 + length data\<rparr>) b
           else captureLoop sel a rest (Suc k) ps1 b))"

definition getCaretOffsetWithin :: "page \<Rightarrow> nat \<Rightarrow> pos" where
  "getCaretOffsetWithin p a =
     captureLoop (window_selection p) a (createTreeWalker (elems p a)) 0
       \<lparr>pos_start = 0, pos_end = 0\<rparr> False"

text \<open>\<^verbatim>\<open>utils.isNumber\<close>: \<^verbatim>\<open>typeof n === 'number' && n % 1 === 0\<close>.\<close>

definition isNumber :: "jsval \<Rightarrow> bool" where
  "isNumber n =
     (case n of
        JNum r \<Rightarrow> r = of_int \<lfloor>r\<rfloor>
      | _ \<Rightarrow> False)"

text \<open>
  \<^verbatim>\<open>index >= 0\<close>. The source evaluates it behind \<^verbatim>\<open>utils.isNumber(index) &&\<close>, that
  is on finite whole numbers only.
\<close>

definition geZero :: "jsval \<Rightarrow> bool" where
  "geZero n = (case n of JNum r \<Rightarrow> 0 \<le> r | JInfinity positive \<Rightarrow> positive | _ \<Rightarrow> False)"

definition toInt :: "jsval \<Rightarrow> int" where
  "toInt n = (case n of JNum r \<Rightarrow> \<lfloor>r\<rfloor> | _ \<Rightarrow> 0)"

text \<open>
  The loop of \<^verbatim>\<open>utils.setCaretPositionWithin\<close>: \<open>Some (k, offset, len)\<close> when the walk
  stops at the node of index \<open>k\<close> (whose data has length \<open>len\<close>) with the in-node
  \<open>offset\<close>, \<open>None\<close> when the walker runs out of nodes.
\<close>

fun restoreLoop :: "string list \<Rightarrow> nat \<Rightarrow> int \<Rightarrow> int \<Rightarrow> (nat \<times> int \<times> nat) option" where
  "restoreLoop [] k currentPos index = None"
| "restoreLoop (data # rest) k currentPos index =
     (let currentPos1 = currentPos + int (length data) in
      if currentPos1 \<ge> index then
        (let prevValue = currentPos1 - int (length data);
             offset = index - prevValue
         in Some (k, offset, length data))
      else restoreLoop rest (Suc k) currentPos1 index)"

text \<open>
  \<^verbatim>\<open>range.setStart(node, offset); range.collapse(true); sel.removeAllRanges();
  sel.addRange(range)\<close>: the selection becomes a caret. \<^verbatim>\<open>setStart\<close> throws when the
  offset lies outside the node's data.
\<close>

definition caretAt :: "noderef \<Rightarrow> nat \<Rightarrow> selection" where
  "caretAt r offset =
     \<lparr>anchorNode = r, anchorOffset = offset, focusNode = r, focusOffset = offset\<rparr>"

definition setCaretPositionWithin :: "page \<Rightarrow> nat \<Rightarrow> jsval \<Rightarrow> completion \<times> page" where
  "setCaretPositionWithin p a index =
     (if isNumber index \<and> geZero index then
        (case restoreLoop (createTreeWalker (elems p a)) 0 0 (toInt index) of
           None \<Rightarrow> (Normal, p)
         | Some (k, offset, len) \<Rightarrow>
             if offset < 0 \<or> int len < offset then (Throw IndexSizeError, p)
             else (Normal, p\<lparr>window_selection := caretAt (TextRef a k) (nat offset)\<rparr>))
      else (Throw InvalidOffsetError, p))"

text \<open>
  \<^verbatim>\<open>utils.escapeHTML\<close>: five global replacements of one character each, in the
  source's order.
\<close>

definition replaceAll :: "char \<Rightarrow> string \<Rightarrow> string \<Rightarrow> string" where
  "replaceAll c by s = concat (map (\<lambda>x. if x = c then by else [x]) s)"

definition escapeHTML :: "string \<Rightarrow> string" where
  "escapeHTML unsafeText =
     replaceAll (CHR 0x27) ''&#039;''
       (replaceAll (CHR 0x22) ''&quot;''
         (replaceAll (CHR ''>'') ''&gt;''
           (replaceAll (CHR ''<'') ''&lt;''
             (replaceAll (CHR ''&'') ''&amp;'' unsafeText))))"

definition isUndefined :: "jsval \<Rightarrow> bool" where
  "isUndefined val = (val = JUndefined)"

section \<open>String.prototype.replace with a global pattern\<close>

text \<open>
  A character of this theory is a UTF-16 code unit below 256. The classes of the
  three default patterns, with the flag \<^verbatim>\<open>i\<close> applied: \<^verbatim>\<open>\d\<close> is \<open>isDigit\<close>,
  \<^verbatim>\<open>\w\<close> is \<open>isWord\<close>, \<^verbatim>\<open>\s\<close> is \<open>isSpace\<close> (tab, line feed, vertical tab, form
  feed, carriage return, space, no-break space), \<^verbatim>\<open>[a-z\d-]\<close> is \<open>isHashChar\<close>,
  \<^verbatim>\<open>[a-z\d_]\<close> is \<open>isWord\<close> again, \<^verbatim>\<open>[\w-]\<close> is \<open>isHostChar\<close>,
  \<^verbatim>\<open>[\w.,@?^=%&amp;:/~+#-]\<close> is \<open>isTailChar\<close> and \<^verbatim>\<open>[\w@?^=%&amp;/~+#-]\<close> is
  \<open>isTailEnd\<close> (the letters a, m, p of the two classes are word characters already).
\<close>

definition isDigit :: "char \<Rightarrow> bool" where
  "isDigit c = (c \<in> set ''0123456789'')"

definition isAlpha :: "char \<Rightarrow> bool" where
  "isAlpha c =
     (c \<in> set ''abcdefghijklmnopqrstuvwxyz'' \<or> c \<in> set ''ABCDEFGHIJKLMNOPQRSTUVWXYZ'')"

definition isWord :: "char \<Rightarrow> bool" where
  "isWord c = (isAlpha c \<or> isDigit c \<or> c = CHR ''_'')"

definition isSpace :: "char \<Rightarrow> bool" where
  "isSpace c =
     (c = CHR 0x09 \<or> c = CHR 0x0A \<or> c = CHR 0x0B \<or> c = CHR 0x0C \<or> c = CHR 0x0D \<or>
      c = CHR 0x20 \<or> c = CHR 0xA0)"

definition isHashChar :: "char \<Rightarrow> bool" where
  "isHashChar c = (isAlpha c \<or> isDigit c \<or> c = CHR ''-'')"

definition isHostChar :: "char \<Rightarrow> bool" where
  "isHostChar c = (isWord c \<or> c = CHR ''-'')"

definition isTailChar :: "char \<Rightarrow> bool" where
  "isTailChar c = (isWord c \<or> c \<in> set ''.,@?^=%&;:/~+#-'')"

definition isTailEnd :: "char \<Rightarrow> bool" where
  "isTailEnd c = (isWord c \<or> c \<in> set ''@?^=%&;/~+#-'')"

definition startsWith :: "string \<Rightarrow> string \<Rightarrow> bool" where
  "startsWith s t = (take (length t) s = t)"

text \<open>
  \<^verbatim>\<open>(@([a-z\d_]+))\<close> at a position: an at sign and the longest run of word
  characters after it, which must not be empty. Group 1 is the whole match, group 2
  the run.
\<close>

definition matchMention :: matcher where
  "matchMention pre rest =
     (case rest of
        [] \<Rightarrow> None
      | c # cs \<Rightarrow>
          if c = CHR ''@'' \<and> takeWhile isWord cs \<noteq> []
          then Some (1 + length (takeWhile isWord cs),
                     [Some (c # takeWhile isWord cs), Some (takeWhile isWord cs)])
          else None)"

text \<open>
  \<^verbatim>\<open>(^|\s)(#[a-z\d-]+)\<close> at a position. \<open>hashBody\<close> is the second group: a hash
  sign and the longest non-empty run of \<^verbatim>\<open>[a-z\d-]\<close>. The first group is tried as
  \<^verbatim>\<open>^\<close> first, which holds at the start of the whole string only (the pattern has no
  flag \<^verbatim>\<open>m\<close>) and takes nothing, then as one white-space character.
\<close>

definition hashBody :: "string \<Rightarrow> string option" where
  "hashBody s =
     (case s of
        [] \<Rightarrow> None
      | c # cs \<Rightarrow>
          if c = CHR ''#'' \<and> takeWhile isHashChar cs \<noteq> []
          then Some (c # takeWhile isHashChar cs)
          else None)"

definition matchHashtag :: matcher where
  "matchHashtag pre rest =
     (case (if pre = [] then hashBody rest else None) of
        Some body \<Rightarrow> Some (length body, [Some [], Some body])
      | None \<Rightarrow>
          (case rest of
             [] \<Rightarrow> None
           | s # r \<Rightarrow>
               if isSpace s then
                 (case hashBody r of
                    Some body \<Rightarrow> Some (1 + length body, [Some [s], Some body])
                  | None \<Rightarrow> None)
               else None))"

text \<open>
  The pieces of the URL pattern. \<open>headIs s ps\<close> holds when \<open>s\<close> begins with one
  character out of each pair of \<open>ps\<close> in turn. \<open>schemeLength\<close> is the length of
  what \<^verbatim>\<open>https?:\/\/\<close> takes at the head of a string, letters in either case, the
  optional s tried first.
  \<open>dotLabels\<close> are the repetitions of \<^verbatim>\<open>(\.[\w-]+)\<close>, each as long as it can be, as
  many as there are. The tail \<^verbatim>\<open>([\w.,@?^=%&amp;:/~+#-]*[\w@?^=%&amp;/~+#-])?\<close> is the
  longest run of \<open>isTailChar\<close> cut back to its last \<open>isTailEnd\<close> character; when
  nothing is left of it the optional group takes no part.
\<close>

fun headIs :: "string \<Rightarrow> (char \<times> char) list \<Rightarrow> bool" where
  "headIs s [] = True"
| "headIs [] (p # ps) = False"
| "headIs (c # cs) (p # ps) = ((c = fst p \<or> c = snd p) \<and> headIs cs ps)"

definition schemeLength :: "string \<Rightarrow> nat option" where
  "schemeLength s =
     (if headIs s [(CHR ''h'', CHR ''H''), (CHR ''t'', CHR ''T''), (CHR ''t'', CHR ''T''),
                   (CHR ''p'', CHR ''P''), (CHR ''s'', CHR ''S''), (CHR '':'', CHR '':''),
                   (CHR ''/'', CHR ''/''), (CHR ''/'', CHR ''/'')]
      then Some 8
      else if headIs s [(CHR ''h'', CHR ''H''), (CHR ''t'', CHR ''T''), (CHR ''t'', CHR ''T''),
                        (CHR ''p'', CHR ''P''), (CHR '':'', CHR '':''), (CHR ''/'', CHR ''/''),
                        (CHR ''/'', CHR ''/'')]
      then Some 7
      else None)"

function dotLabels :: "string \<Rightarrow> string list" where
  "dotLabels [] = []"
| "dotLabels (c # cs) =
     (if c = CHR ''.'' \<and> takeWhile isHostChar cs \<noteq> []
      then (c # takeWhile isHostChar cs) # dotLabels (dropWhile isHostChar cs)
      else [])"
  by pat_completeness auto
termination
  by (relation "measure length") (auto simp: length_dropWhile_le less_Suc_eq_le)

definition urlTail :: "string \<Rightarrow> string" where
  "urlTail s = rev (dropWhile (\<lambda>c. \<not> isTailEnd c) (rev (takeWhile isTailChar s)))"

definition matchUrl :: matcher where
  "matchUrl pre rest =
     (case schemeLength rest of
        None \<Rightarrow> None
      | Some k \<Rightarrow>
          (let r1 = drop k rest;
               hostname = takeWhile isHostChar r1;
               r2 = dropWhile isHostChar r1;
               labels = dotLabels r2;
               r3 = drop (length (concat labels)) r2;
               tail = urlTail r3;
               n = k + length hostname + length (concat labels) + length tail
           in if hostname = [] \<or> labels = [] then None
              else Some (n, [Some (take n rest), Some (take (k - 3) rest), Some (last labels),
                             if tail = [] then None else Some tail])))"

definition matchLiteral :: "string \<Rightarrow> matcher" where
  "matchLiteral lit pre rest =
     (if startsWith rest lit then Some (length lit, []) else None)"

definition matchAt :: "host \<Rightarrow> regexp \<Rightarrow> matcher" where
  "matchAt h re =
     (case re of
        HashtagRegExp \<Rightarrow> matchHashtag
      | UrlRegExp \<Rightarrow> matchUrl
      | MentionRegExp \<Rightarrow> matchMention
      | LiteralRegExp lit \<Rightarrow> matchLiteral lit
      | HostRegExp n \<Rightarrow> execAt h n)"

text \<open>
  The replacement text of one match (the language's \<^verbatim>\<open>GetSubstitution\<close>):
  \<^verbatim>\<open>$$\<close> is a dollar sign, \<^verbatim>\<open>$&\<close> the match, \<^verbatim>\<open>$`\<close> and \<^verbatim>\<open>$'\<close> the string before
  and after it, \<^verbatim>\<open>$n\<close> and \<^verbatim>\<open>$nn\<close> a capture (two digits are read as one index
  when the pattern has that many groups, else as one digit and a literal digit; an
  index that names no group leaves the reference as it is written; a group that took
  no part gives the empty string). None of the patterns has named groups.
\<close>

definition digitValue :: "char \<Rightarrow> nat" where
  "digitValue c = of_char c - 48"

definition capture :: "captures \<Rightarrow> nat \<Rightarrow> string \<Rightarrow> string" where
  "capture caps index written =
     (if 1 \<le> index \<and> index \<le> length caps
      then (case caps ! (index - 1) of None \<Rightarrow> [] | Some s \<Rightarrow> s)
      else written)"

fun expand :: "string \<Rightarrow> string \<Rightarrow> string \<Rightarrow> string \<Rightarrow> captures \<Rightarrow> string" where
  "expand [] matched pre post caps = []"
| "expand [c] matched pre post caps = [c]"
| "expand (c # d # t) matched pre post caps =
     (if c \<noteq> CHR ''$'' then c # expand (d # t) matched pre post caps
      else if d = CHR ''$'' then CHR ''$'' # expand t matched pre post caps
      else if d = CHR ''&'' then matched @ expand t matched pre post caps
      else if d = CHR 0x60 then pre @ expand t matched pre post caps
      else if d = CHR 0x27 then post @ expand t matched pre post caps
      else if isDigit d then
        (case t of
           [] \<Rightarrow> capture caps (digitValue d) [c, d]
         | d2 # t2 \<Rightarrow>
             if isDigit d2 \<and> 10 * digitValue d + digitValue d2 \<le> length caps
             then capture caps (10 * digitValue d + digitValue d2) [c, d, d2] @
                  expand t2 matched pre post caps
             else capture caps (digitValue d) [c, d] @ expand (d2 # t2) matched pre post caps)
      else c # expand (d # t) matched pre post caps)"

text \<open>
  The loop of \<^verbatim>\<open>text.replace(pattern, template)\<close> for a global pattern: the
  positions are tried from left to right; a match is replaced and the search goes on
  behind it; behind an empty match the next character is copied and the search goes on
  one position further.
\<close>

function replaceFrom :: "matcher \<Rightarrow> string \<Rightarrow> string \<Rightarrow> string \<Rightarrow> string" where
  "replaceFrom m tpl pre [] =
     (case m pre [] of
        None \<Rightarrow> []
      | Some (n, caps) \<Rightarrow> expand tpl [] pre [] caps)"
| "replaceFrom m tpl pre (c # cs) =
     (case m pre (c # cs) of
        None \<Rightarrow> c # replaceFrom m tpl (pre @ [c]) cs
      | Some (n, caps) \<Rightarrow>
          expand tpl (take n (c # cs)) pre (drop n (c # cs)) caps @
          (if n = 0 then c # replaceFrom m tpl (pre @ [c]) cs
           else replaceFrom m tpl (pre @ take n (c # cs)) (drop n (c # cs))))"
  by pat_completeness auto
termination
  by (relation "measure (\<lambda>(m, tpl, pre, rest). length rest)") auto

definition replace :: "host \<Rightarrow> string \<Rightarrow> regexp \<Rightarrow> string \<Rightarrow> string" where
  "replace h text re tpl = replaceFrom (matchAt h re) tpl [] text"

section \<open>utils, continued\<close>

text \<open>
  The string \<^verbatim>\<open>utils.highlight\<close> computes before it assigns it to \<^verbatim>\<open>innerHTML\<close>:
  the escaped text, rewritten by every rule in order.
\<close>

definition render :: "host \<Rightarrow> rule list \<Rightarrow> string \<Rightarrow> string" where
  "render h rules unsafeText =
     foldl (\<lambda>text reg. replace h text (pattern reg) (template reg))
       (escapeHTML unsafeText) rules"

text \<open>
  The \<^verbatim>\<open>innerHTML\<close> setter: the children are replaced by what the parser makes of the
  string; a boundary of the selection that stood in the element's subtree is left at
  the element itself, offset 0, as the document does for the ranges of removed nodes.
\<close>

definition inSubtree :: "nat \<Rightarrow> noderef \<Rightarrow> bool" where
  "inSubtree a r =
     (case r of
        ElemRef b \<Rightarrow> b = a
      | TextRef b k \<Rightarrow> b = a
      | InnerRef b n \<Rightarrow> b = a
      | _ \<Rightarrow> False)"

definition detachSelection :: "nat \<Rightarrow> selection \<Rightarrow> selection" where
  "detachSelection a sel =
     \<lparr>anchorNode = (if inSubtree a (anchorNode sel) then ElemRef a else anchorNode sel),
      anchorOffset = (if inSubtree a (anchorNode sel) then 0 else anchorOffset sel),
      focusNode = (if inSubtree a (focusNode sel) then ElemRef a else focusNode sel),
      focusOffset = (if inSubtree a (focusNode sel) then 0 else focusOffset sel)\<rparr>"

definition setInnerHTML :: "host \<Rightarrow> page \<Rightarrow> nat \<Rightarrow> string \<Rightarrow> page" where
  "setInnerHTML h p a markup =
     p\<lparr>elems := (elems p)(a := (elems p a)\<lparr>children := parseHTML h markup\<rparr>),
       window_selection := detachSelection a (window_selection p)\<rparr>"

definition highlight :: "host \<Rightarrow> page \<Rightarrow> nat \<Rightarrow> page" where
  "highlight h p a =
     (let text = render h (regexs (settings p)) (innerText h (elems p a))
      in setInnerHTML h p a text)"

section \<open>Plugin private methods\<close>

text \<open>The literals the module's variables \<^verbatim>\<open>settings\<close> and \<^verbatim>\<open>events\<close> start from.\<close>

definition defaultSettings :: config where
  \<open>defaultSettings =
     \<lparr>className = ''cehighlighter'',
      elastic = True,
      regexs =
        [\<lparr>pattern = HashtagRegExp, template = ''$1<span class="hashtag">$2</span>''\<rparr>,
         \<lparr>pattern = UrlRegExp, template = ''<span class="url">$1</span>''\<rparr>,
         \<lparr>pattern = MentionRegExp, template = ''<span class="mention">$1</span>''\<rparr>]\<rparr>\<close>

definition defaultEvents :: "string \<rightharpoonup> jsval" where
  "defaultEvents = [''change'' \<mapsto> JUndefined, ''destroy'' \<mapsto> JUndefined]"

text \<open>
  \<^verbatim>\<open>trigger(evtName, ctx)\<close>. Calling the subscribed function is recorded in \<open>calls\<close>;
  what the function itself does is the subscriber's business and is not modelled (it is
  taken to return). A stored value that is neither \<^verbatim>\<open>undefined\<close> nor a function could
  not be applied.
\<close>

definition trigger :: "page \<Rightarrow> string \<Rightarrow> inst \<Rightarrow> completion \<times> page" where
  "trigger p name this =
     (case events p name of
        None \<Rightarrow> (Normal, p)
      | Some v \<Rightarrow>
          if \<not> isUndefined v then
            (case v of
               JFunction f \<Rightarrow>
                 (Normal, p\<lparr>calls := calls p @ [\<lparr>evtName = name, fn = f, ctx = this\<rparr>]\<rparr>)
             | _ \<Rightarrow> (Throw TypeError, p))
          else (Normal, p))"

text \<open>
  The clipboard lookup at the head of \<^verbatim>\<open>onPaste\<close>: \<open>clipboardData e\<close> is
  \<^verbatim>\<open>e.clipboardData.getData('text/plain')\<close> where the event has that object, the
  window's legacy object comes second, and \<^verbatim>\<open>false\<close> (here \<open>None\<close>) is left when
  there is neither.
\<close>

definition clipboardText :: "page \<Rightarrow> event \<Rightarrow> string option" where
  "clipboardText p e =
     (case clipboardData e of
        Some s \<Rightarrow> Some s
      | None \<Rightarrow>
          (case window_clipboardData p of
             Some s \<Rightarrow> Some s
           | None \<Rightarrow> None))"

text \<open>
  An event handler returns how it completed, whether it called
  \<^verbatim>\<open>e.preventDefault()\<close>, and the state. \<^verbatim>\<open>if (paste)\<close> fails on \<^verbatim>\<open>false\<close> and on
  the empty string. In \<^verbatim>\<open>onPaste\<close> the argument of the last call,
  \<^verbatim>\<open>trigger('change', _this)\<close>, names a variable that no enclosing scope declares
  (the only \<^verbatim>\<open>var _this\<close> is local to \<^verbatim>\<open>onInput\<close>): evaluating it reads the global
  of that name and raises \<^verbatim>\<open>ReferenceError\<close> when there is none.
\<close>

definition onPaste :: "host \<Rightarrow> page \<Rightarrow> inst \<Rightarrow> event \<Rightarrow> completion \<times> bool \<times> page" where
  "onPaste h p this e =
     (case clipboardText p e of
        None \<Rightarrow> (Normal, True, p)
      | Some paste \<Rightarrow>
      if paste \<noteq> [] then
        (let input_value = inputValue h paste;
             ps = getCaretOffsetWithin p (el this);
             html = innerText h (elems p (el this));
             escapedPastedText = escapeHTML input_value;
             p1 = setInnerHTML h p (el this)
                    (take (pos_start ps) html @ escapedPastedText @ drop (pos_end ps) html);
             p2 = highlight h p1 (el this);
             newCaretPosition = pos_start ps + length escapedPastedText
         in case setCaretPositionWithin p2 (el this) (JNum (of_nat newCaretPosition)) of
              (Throw err, p3) \<Rightarrow> (Throw err, False, p3)
            | (Normal, p3) \<Rightarrow>
                (case global_this p3 of
                   None \<Rightarrow> (Throw ReferenceError, False, p3)
                 | Some that \<Rightarrow>
                     (case trigger p3 ''change'' that of
                        (Throw err, p4) \<Rightarrow> (Throw err, False, p4)
                      | (Normal, p4) \<Rightarrow> (Normal, True, p4))))
      else (Normal, True, p))"

text \<open>
  \<^verbatim>\<open>onInput\<close> only queues its work with \<^verbatim>\<open>setTimeout(..., 0)\<close>; \<open>onInputDeferred\<close>
  is the queued function.
\<close>

definition onInputDeferred :: "host \<Rightarrow> page \<Rightarrow> inst \<Rightarrow> completion \<times> page" where
  "onInputDeferred h p that =
     (let charPos = getCaretOffsetWithin p (el that);
          p1 = highlight h p (el that)
      in case setCaretPositionWithin p1 (el that) (JNum (of_nat (pos_start charPos))) of
           (Throw err, p2) \<Rightarrow> (Throw err, p2)
         | (Normal, p2) \<Rightarrow> trigger p2 ''change'' that)"

definition onInput :: "page \<Rightarrow> inst \<Rightarrow> event \<Rightarrow> completion \<times> bool \<times> page" where
  "onInput p this e = (Normal, False, p\<lparr>timers := timers p @ [this]\<rparr>)"



definition isFunction :: "jsval \<Rightarrow> bool" where
  "isFunction v = (case v of JFunction f \<Rightarrow> True | _ \<Rightarrow> False)"

text \<open>\<^verbatim>\<open>events.hasOwnProperty(evtName)\<close> is \<open>events p name \<noteq> None\<close>.\<close>

definition attachEvent :: "page \<Rightarrow> string \<Rightarrow> jsval \<Rightarrow> completion \<times> page" where
  "attachEvent p name cb =
     (if events p name \<noteq> None then
        (if isFunction cb then (Normal, p\<lparr>events := (events p)(name \<mapsto> cb)\<rparr>)
         else (Throw InvalidHandlerError, p))
      else (Throw UnsupportedEventError, p))"

definition detachEvent :: "page \<Rightarrow> string \<Rightarrow> completion \<times> page" where
  "detachEvent p name =
     (if events p name \<noteq> None then (Normal, p\<lparr>events := (events p)(name \<mapsto> JUndefined)\<rparr>)
      else (Throw UnsupportedEventError, p))"

section \<open>Plugin\<close>

definition bind :: "page \<Rightarrow> handler \<Rightarrow> inst \<Rightarrow> boundfn \<times> page" where
  "bind p f this =
     (\<lparr>fnid = nextFn p, target = f, bound_this = this\<rparr>, p\<lparr>nextFn := Suc (nextFn p)\<rparr>)"

text \<open>
  The element's listener list: a listener is identified by its event type and the
  identity of its function object, is added once, and is removed only by that identity.
\<close>

definition sameListener :: "string \<Rightarrow> boundfn \<Rightarrow> listener \<Rightarrow> bool" where
  "sameListener ty f l = (evtype l = ty \<and> fnid (callback l) = fnid f)"

definition addEventListener :: "element \<Rightarrow> string \<Rightarrow> boundfn \<Rightarrow> element" where
  "addEventListener e ty f =
     (if filter (sameListener ty f) (listeners e) = []
      then e\<lparr>listeners := listeners e @ [\<lparr>evtype = ty, callback = f\<rparr>]\<rparr>
      else e)"

definition removeEventListener :: "element \<Rightarrow> string \<Rightarrow> boundfn \<Rightarrow> element" where
  "removeEventListener e ty f =
     e\<lparr>listeners := filter (\<lambda>l. \<not> sameListener ty f l) (listeners e)\<rparr>"

text \<open>
  \<^verbatim>\<open>classList.add(token)\<close> and \<^verbatim>\<open>classList.remove(token)\<close> first validate the token:
  the empty string is a \<^verbatim>\<open>SyntaxError\<close>, a token holding ASCII white space (tab, line
  feed, form feed, carriage return, space) an \<^verbatim>\<open>InvalidCharacterError\<close>.
\<close>

definition isAsciiWhitespace :: "char \<Rightarrow> bool" where
  "isAsciiWhitespace c =
     (c = CHR 0x09 \<or> c = CHR 0x0A \<or> c = CHR 0x0C \<or> c = CHR 0x0D \<or> c = CHR 0x20)"

definition validateToken :: "string \<Rightarrow> error option" where
  "validateToken token =
     (if token = [] then Some SyntaxError
      else if filter isAsciiWhitespace token \<noteq> [] then Some InvalidCharacterError
      else None)"

definition classList_add :: "string \<Rightarrow> string list \<Rightarrow> error + string list" where
  "classList_add c cl =
     (case validateToken c of
        Some err \<Rightarrow> Inl err
      | None \<Rightarrow> Inr (if c \<in> set cl then cl else cl @ [c]))"

definition classList_remove :: "string \<Rightarrow> string list \<Rightarrow> error + string list" where
  "classList_remove c cl =
     (case validateToken c of
        Some err \<Rightarrow> Inl err
      | None \<Rightarrow> Inr (filter (\<lambda>x. x \<noteq> c) cl))"

text \<open>
  The constructor. \<open>Inl\<close> is a throw, \<open>Inr\<close> the new instance; the instance holds
  nothing but its element. The three argument checks throw before anything is
  touched. \<^verbatim>\<open>classList.add\<close> throws after \<^verbatim>\<open>utils.extend\<close> has written the settings
  and after the element has been made editable, and both stay. \<^verbatim>\<open>offsetHeight\<close> is
  read from the element as the statements before have left it.
\<close>

definition CEHighlighter :: "host \<Rightarrow> page \<Rightarrow> elarg \<Rightarrow> optarg \<Rightarrow> (error + inst) \<times> page" where
  "CEHighlighter h p elArg opts =
     (if \<not> supports p then (Inl UnsupportedHostError, p)
      else
        (case elArg of
           NotHTMLElement \<Rightarrow> (Inl InvalidTargetError, p)
         | HTMLElement a \<Rightarrow>
             (case opts of
                OptNotObject \<Rightarrow> (Inl InvalidConfigError, p)
              | _ \<Rightarrow>
                 (let st = extend (settings p) opts;
                      p1 = p\<lparr>settings := st\<rparr>;
                      this = Instance a;
                      e1 = (elems p1 a)\<lparr>contenteditable := Some ''true''\<rparr>
                  in case classList_add (className st) (classList e1) of
                       Inl err \<Rightarrow> (Inl err, p1\<lparr>elems := (elems p1)(a := e1)\<rparr>)
                     | Inr cl \<Rightarrow>
                        (let e2 = e1\<lparr>classList := cl\<rparr>;
                             e3 = e2\<lparr>style := (style e2)(''whiteSpace'' \<mapsto> Keyword ''pre-wrap'')\<rparr>;
                             e4 = e3\<lparr>style := (style e3)(''outline'' \<mapsto> Keyword ''none'')\<rparr>;
                             e5 = (if elastic st = True then
                                     (let d = e4\<lparr>style := (style e4)(''display'' \<mapsto> Keyword ''inline-block'')\<rparr>;
                                          m = d\<lparr>style := (style d)(''minHeight'' \<mapsto> Px (offsetHeight h d))\<rparr>
                                      in m\<lparr>style := (style m)(''height'' \<mapsto> Keyword ''auto'')\<rparr>)
                                   else
                                     (let g = e4\<lparr>style := (style e4)(''height'' \<mapsto> Px (offsetHeight h e4))\<rparr>
                                      in g\<lparr>style := (style g)(''overflow'' \<mapsto> Keyword ''auto'')\<rparr>));
                             (f1, p2) = bind p1 OnPaste this;
                             e6 = addEventListener e5 ''paste'' f1;
                             (f2, p3) = bind p2 OnInput this;
                             e7 = addEventListener e6 ''input'' f2;
                             (f3, p4) = bind p3 OnKeyPress this;
                             e8 = addEventListener e7 ''keypress'' f3
                         in (Inr this, p4\<lparr>elems := (elems p4)(a := e8)\<rparr>))))))"

definition getCaretPosition :: "page \<Rightarrow> inst \<Rightarrow> pos" where
  "getCaretPosition p this = getCaretOffsetWithin p (el this)"

definition setCaretPosition :: "page \<Rightarrow> inst \<Rightarrow> jsval \<Rightarrow> completion \<times> page" where
  "setCaretPosition p this index = setCaretPositionWithin p (el this) index"

definition getLength :: "host \<Rightarrow> page \<Rightarrow> inst \<Rightarrow> nat" where
  "getLength h p this = length (innerText h (elems p (el this)))"

definition on :: "page \<Rightarrow> inst \<Rightarrow> string \<Rightarrow> jsval \<Rightarrow> completion \<times> page" where
  "on p this name cb = attachEvent p name cb"

definition unbind :: "page \<Rightarrow> inst \<Rightarrow> string \<Rightarrow> completion \<times> page" where
  "unbind p this name = detachEvent p name"

text \<open>
  \<^verbatim>\<open>destroy()\<close>. When \<^verbatim>\<open>classList.remove\<close> throws, the attribute has been removed
  already and nothing after it runs.
\<close>

definition destroy :: "page \<Rightarrow> inst \<Rightarrow> completion \<times> page" where
  "destroy p this =
     (let e1 = (elems p (el this))\<lparr>contenteditable := None\<rparr>
      in case classList_remove (className (settings p)) (classList e1) of
           Inl err \<Rightarrow> (Throw err, p\<lparr>elems := (elems p)((el this) := e1)\<rparr>)
         | Inr cl \<Rightarrow>
            (let e2 = e1\<lparr>classList := cl\<rparr>;
                 (f1, p1) = bind p OnPaste this;
                 e3 = removeEventListener e2 ''paste'' f1;
                 (f2, p2) = bind p1 OnInput this;
                 e4 = removeEventListener e3 ''input'' f2
             in trigger (p2\<lparr>elems := (elems p2)((el this) := e4)\<rparr>) ''destroy'' this))"

section \<open>Concrete pages\<close>

text \<open>
  The state right after the module has been evaluated in a browser that has
  \<^verbatim>\<open>document.querySelector\<close> and \<^verbatim>\<open>addEventListener\<close>: nothing is selected, no
  legacy clipboard object, no global named \<^verbatim>\<open>_this\<close>.
\<close>

definition noSelection :: selection where
  "noSelection = \<lparr>anchorNode = NullRef, anchorOffset = 0, focusNode = NullRef, focusOffset = 0\<rparr>"

definition blankElement :: element where
  "blankElement =
     \<lparr>contenteditable = None, classList = [], style = Map.empty, children = [],
      listeners = []\<rparr>"

definition loaded :: "(nat \<Rightarrow> element) \<Rightarrow> page" where
  "loaded doc =
     \<lparr>supports = True, settings = defaultSettings, events = defaultEvents, elems = doc,
      window_selection = noSelection, window_clipboardData = None, global_this = None,
      calls = [], nextFn = 0, timers = []\<rparr>"

definition withText :: "node list \<Rightarrow> nat \<Rightarrow> element" where
  "withText nodes a = blankElement\<lparr>children := nodes\<rparr>"

section \<open>A concrete host\<close>

text \<open>
  The state right after loading needs no host; the scenarios further down need one
  that can be evaluated. \<open>plainHost\<close> is exact on what the module itself writes and
  on plain text, and an approximation elsewhere:
  \<^item> its parser first turns every CR LF and every lone CR into LF, as the input
    stream of the HTML parser does, then decodes the five character references that
    \<open>escapeHTML\<close> writes and reads \<^verbatim>\<open><span ...>\<close> and \<^verbatim>\<open></span>\<close> as tags; any
    other ampersand or \<^verbatim>\<open><\<close> is kept as a character (other references and other
    tags are beyond it);
  \<^item> its \<open>innerText\<close> is exact on a rendered tree of text, inline elements and
    \<^verbatim>\<open>br\<close> under \<^verbatim>\<open>white-space: pre-wrap\<close>: the text nodes in document order, one
    line feed for each \<^verbatim>\<open>br\<close>;
  \<^item> its layout gives every line of text 18 pixels;
  \<^item> its engine finds no match for a \<open>HostRegExp\<close>;
  \<^item> its text input drops the line breaks of the value assigned to it.
\<close>

fun normalizeNewlines :: "string \<Rightarrow> string" where
  "normalizeNewlines [] = []"
| "normalizeNewlines [c] = [if c = CHR 0x0D then CHR 0x0A else c]"
| "normalizeNewlines (c # d # t) =
     (if c = CHR 0x0D
      then CHR 0x0A # (if d = CHR 0x0A then normalizeNewlines t else normalizeNewlines (d # t))
      else c # normalizeNewlines (d # t))"

datatype token = Chr char | StartTag string | EndTag string

definition referenceAt :: "string \<Rightarrow> char \<times> nat" where
  "referenceAt s =
     (if startsWith s ''&amp;'' then (CHR ''&'', 5)
      else if startsWith s ''&lt;'' then (CHR ''<'', 4)
      else if startsWith s ''&gt;'' then (CHR ''>'', 4)
      else if startsWith s ''&quot;'' then (CHR 0x22, 6)
      else if startsWith s ''&#039;'' then (CHR 0x27, 6)
      else (CHR ''&'', 1))"

definition spanTagAt :: "string \<Rightarrow> (token \<times> nat) option" where
  "spanTagAt s =
     (if startsWith s ''</span>'' then Some (EndTag ''span'', 7)
      else if (startsWith s ''<span>'' \<or> startsWith s ''<span '') \<and>
              length (takeWhile (\<lambda>c. c \<noteq> CHR ''>'') s) < length s
      then Some (StartTag ''span'', length (takeWhile (\<lambda>c. c \<noteq> CHR ''>'') s) + 1)
      else None)"

text \<open>The first argument of \<open>tokenize\<close> counts the characters still to be skipped.\<close>

fun tokenize :: "nat \<Rightarrow> string \<Rightarrow> token list" where
  "tokenize skip [] = []"
| "tokenize (Suc k) (c # cs) = tokenize k cs"
| "tokenize 0 (c # cs) =
     (if c = CHR ''&'' then
        Chr (fst (referenceAt (c # cs))) # tokenize (snd (referenceAt (c # cs)) - 1) cs
      else if c = CHR ''<'' then
        (case spanTagAt (c # cs) of
           Some (tok, n) \<Rightarrow> tok # tokenize (n - 1) cs
         | None \<Rightarrow> Chr c # tokenize 0 cs)
      else Chr c # tokenize 0 cs)"

text \<open>
  The tree is built on a stack of open elements, each with the children it has so
  far; the bottom frame is the fragment. Characters in a row make one text node.
\<close>

type_synonym frame = "string \<times> node list"

definition addChar :: "char \<Rightarrow> node list \<Rightarrow> node list" where
  "addChar c ns =
     (case rev ns of
        Text s # r \<Rightarrow> rev r @ [Text (s @ [c])]
      | _ \<Rightarrow> ns @ [Text [c]])"

fun closeTop :: "frame list \<Rightarrow> frame list" where
  "closeTop ((tag, ns) # (ptag, pns) # st) = (ptag, pns @ [Element tag ns]) # st"
| "closeTop st = st"

fun build :: "frame list \<Rightarrow> token list \<Rightarrow> frame list" where
  "build st [] = st"
| "build st (Chr c # ts) =
     build (case st of [] \<Rightarrow> [] | (tag, ns) # r \<Rightarrow> (tag, addChar c ns) # r) ts"
| "build st (StartTag n # ts) = build ((n, []) # st) ts"
| "build st (EndTag n # ts) = build (closeTop st) ts"

fun closeAll :: "nat \<Rightarrow> frame list \<Rightarrow> node list" where
  "closeAll fuel [] = []"
| "closeAll fuel [(tag, ns)] = ns"
| "closeAll 0 ((tag, ns) # st) = ns"
| "closeAll (Suc fuel) st = closeAll fuel (closeTop st)"

definition parseFragment :: "string \<Rightarrow> node list" where
  "parseFragment markup =
     (let st = build [([], [])] (tokenize 0 (normalizeNewlines markup))
      in closeAll (length st) st)"

fun renderedText :: "node \<Rightarrow> string" where
  "renderedText (Text s) = s"
| "renderedText (Element tag cs) =
     (if tag = ''br'' then [CHR 0x0A] else concat (map renderedText cs))"

definition plainHost :: host where
  "plainHost =
     \<lparr>parseHTML = parseFragment,
      innerText = (\<lambda>e. concat (map renderedText (children e))),
      offsetHeight =
        (\<lambda>e. 18 * (1 + length (filter (\<lambda>c. c = CHR 0x0A) (concat (map renderedText (children e)))))),
      execAt = (\<lambda>n pre rest. None),
      inputValue = filter (\<lambda>c. c \<noteq> CHR 0x0D \<and> c \<noteq> CHR 0x0A)\<rparr>"

section \<open>What the specification asks of the markup\<close>

text \<open>
  The specification's escaping, character by character: each of the five
  markup-significant characters becomes its entity, every other character stays.
\<close>

definition escapeChar :: "char \<Rightarrow> string" where
  "escapeChar c =
     (if c = CHR ''&'' then ''&amp;''
      else if c = CHR ''<'' then ''&lt;''
      else if c = CHR ''>'' then ''&gt;''
      else if c = CHR 0x22 then ''&quot;''
      else if c = CHR 0x27 then ''&#039;''
      else [c])"

definition entities :: "string list" where
  "entities = [''&amp;'', ''&lt;'', ''&gt;'', ''&quot;'', ''&#039;'']"

text \<open>
  A string with no unescaped markup-significant character: it holds no
  \<^verbatim>\<open><\<close>, \<^verbatim>\<open>>\<close>, double or single quote at all, and each of its ampersands opens one
  of the five entities.
\<close>

fun noRawMarkup :: "string \<Rightarrow> bool" where
  "noRawMarkup [] = True"
| "noRawMarkup (c # cs) =
     ((if c = CHR ''&'' then filter (startsWith (c # cs)) entities \<noteq> []
       else c \<noteq> CHR ''<'' \<and> c \<noteq> CHR ''>'' \<and> c \<noteq> CHR 0x22 \<and> c \<noteq> CHR 0x27)
      \<and> noRawMarkup cs)"

text \<open>
  The markup the three default templates generate: an opening tag for each rule and
  the closing tag. \<open>untemplate 0 s\<close> removes these tags from \<open>s\<close> and gives what is
  left; it gives \<open>None\<close> when \<open>s\<close> holds a \<^verbatim>\<open><\<close> that does not open one of them.
  Its first argument counts the characters of a tag still to be skipped.
\<close>

definition templateTags :: "string list" where
  \<open>templateTags =
     [''<span class="hashtag">'', ''<span class="url">'', ''<span class="mention">'',
      ''</span>'']\<close>

definition tagLengthAt :: "string \<Rightarrow> nat" where
  "tagLengthAt s =
     (case filter (startsWith s) templateTags of
        [] \<Rightarrow> 0
      | tag # others \<Rightarrow> length tag)"

fun untemplate :: "nat \<Rightarrow> string \<Rightarrow> string option" where
  "untemplate skip [] = (if skip = 0 then Some [] else None)"
| "untemplate (Suc k) (c # cs) = untemplate k cs"
| "untemplate 0 (c # cs) =
     (if c = CHR ''<''
      then (if tagLengthAt (c # cs) = 0 then None
            else untemplate (tagLengthAt (c # cs) - 1) cs)
      else map_option ((#) c) (untemplate 0 cs))"


section \<open>Scenarios\<close>

text \<open>A surface whose tree has four text nodes, one of them empty, one inside a span.\<close>

definition sample :: page where
  "sample = loaded (withText [Text ''ab'', Element ''span'' [Text ''#cd''], Text [], Text ''e''])"

text \<open>
  A surface holding one text node, with an instance constructed on it (default
  options) and the function \<open>JFunction 1\<close> subscribed to \<^verbatim>\<open>change\<close>.
\<close>

definition mounted :: "string \<Rightarrow> page" where
  "mounted s =
     snd (on (snd (CEHighlighter plainHost (loaded (withText [Text s])) (HTMLElement 0)
                     OptUndefined))
            (Instance 0) ''change'' (JFunction 1))"

text \<open>The text "hello world" with the caret after "hello", and a paste of "!".\<close>

definition helloWorld :: page where
  "helloWorld = (mounted ''hello world'')\<lparr>window_selection := caretAt (TextRef 0 0) 5\<rparr>"

definition pasteBang :: event where
  "pasteBang = \<lparr>which = 0, clipboardData = Some ''!''\<rparr>"


definition enterKey :: event where
  "enterKey = \<lparr>which = 13, clipboardData = None\<rparr>"



text \<open>A paste event whose clipboard holds the empty string.\<close>

definition pasteNothing :: event where
  "pasteNothing = \<lparr>which = 0, clipboardData = Some []\<rparr>"

text \<open>
  Two surfaces: an instance is constructed on surface 0 with no options; the options
  \<open>regexsOverride\<close> are for a second instance, on surface 1; the options
  \<open>emptyClassName\<close> make a construction fail in \<^verbatim>\<open>classList.add\<close>.
\<close>

definition regexsOverride :: optarg where
  \<open>regexsOverride =
     OptObject \<lparr>opt_className = None, opt_elastic = None,
                opt_regexs = Some [\<lparr>pattern = LiteralRegExp ''#a'',
                                    template = ''<span class="tag">$&</span>''\<rparr>]\<rparr>\<close>

definition emptyClassName :: optarg where
  "emptyClassName =
     OptObject \<lparr>opt_className = Some [], opt_elastic = None, opt_regexs = None\<rparr>"

definition twoSurfaces :: page where
  "twoSurfaces =
     snd (CEHighlighter plainHost (loaded (withText [Text ''#a''])) (HTMLElement 0) OptUndefined)"

text \<open>
  An instance is constructed and \<open>JFunction 7\<close> is subscribed to \<^verbatim>\<open>destroy\<close>
  (\<open>subscribed\<close>). In \<open>destroyedTwice\<close>, \<^verbatim>\<open>destroy()\<close> is then called twice. In
  \<open>spoiled\<close>, a second construction with the empty class name is attempted instead,
  on surface 1; in \<open>renamed\<close>, a second instance is constructed there with the class
  name \<^verbatim>\<open>other\<close>.
\<close>

definition subscribed :: page where
  "subscribed =
     snd (on (snd (CEHighlighter plainHost (loaded (withText [])) (HTMLElement 0) OptUndefined))
            (Instance 0) ''destroy'' (JFunction 7))"

definition destroyedTwice :: page where
  "destroyedTwice = snd (destroy (snd (destroy subscribed (Instance 0))) (Instance 0))"

definition spoiled :: page where
  "spoiled = snd (CEHighlighter plainHost subscribed (HTMLElement 1) emptyClassName)"

definition otherClassName :: optarg where
  "otherClassName =
     OptObject \<lparr>opt_className = Some ''other'', opt_elastic = None, opt_regexs = None\<rparr>"

definition renamed :: page where
  "renamed = snd (CEHighlighter plainHost subscribed (HTMLElement 1) otherClassName)"

text \<open>A rule set of one rule, \<^verbatim>\<open>{pattern: /amp;/g, template: ''}\<close>.\<close>

definition stripAmp :: "rule list" where
  "stripAmp = [\<lparr>pattern = LiteralRegExp ''amp;'', template = []\<rparr>]"

section \<open>The offset mapper\<close>

lemma isCollapsed_caretAt [simp]: "isCollapsed (caretAt r n)"
  by (simp add: isCollapsed_def caretAt_def)

lemma caretAt_sel [simp]:
  "anchorNode (caretAt r n) = r" "anchorOffset (caretAt r n) = n"
  "focusNode (caretAt r n) = r" "focusOffset (caretAt r n) = n"
  by (simp_all add: caretAt_def)

lemma restoreLoop_None:
  "cp + int (length (concat ls)) < idx \<Longrightarrow> restoreLoop ls k cp idx = None"
  by (induction ls arbitrary: k cp) (auto simp: Let_def)

lemma restoreLoop_Some_bounds:
  "restoreLoop ls k cp idx = Some (k', off, len) \<Longrightarrow> cp \<le> idx \<Longrightarrow> 0 \<le> off \<and> off \<le> int len"
proof (induction ls arbitrary: k cp)
  case Nil
  then show ?case by simp
next
  case (Cons d ls)
  show ?case
  proof (cases "cp + int (length d) \<ge> idx")
    case True
    with Cons.prems show ?thesis by (auto simp: Let_def)
  next
    case False
    with Cons.prems have "restoreLoop ls (Suc k) (cp + int (length d)) idx = Some (k', off, len)"
      by (simp add: Let_def)
    moreover from False have "cp + int (length d) \<le> idx" by simp
    ultimately show ?thesis by (rule Cons.IH)
  qed
qed

lemma restore_capture:
  "cp \<le> idx \<Longrightarrow> idx \<le> cp + int (length (concat ls)) \<Longrightarrow> ls \<noteq> [] \<Longrightarrow>
   \<exists>k off len. restoreLoop ls k0 cp idx = Some (k, off, len) \<and> k0 \<le> k \<and>
     (\<forall>ps. captureLoop (caretAt (TextRef a k) (nat off)) a ls k0 ps False =
        \<lparr>pos_start = pos_start ps + nat (idx - cp), pos_end = pos_start ps + nat (idx - cp)\<rparr>)"
proof (induction ls arbitrary: k0 cp)
  case Nil
  then show ?case by simp
next
  case (Cons d ls)
  show ?case
  proof (cases "cp + int (length d) \<ge> idx")
    case True
    then show ?thesis using Cons.prems by (simp add: Let_def)
  next
    case False
    then have lt: "cp + int (length d) < idx" by simp
    with Cons.prems have ne: "ls \<noteq> []" by auto
    from lt have le: "cp + int (length d) \<le> idx" by simp
    from Cons.prems have up: "idx \<le> (cp + int (length d)) + int (length (concat ls))" by simp
    from Cons.IH [OF le up ne, of "Suc k0"]
    obtain k off len where
      r: "restoreLoop ls (Suc k0) (cp + int (length d)) idx = Some (k, off, len)"
      and k: "Suc k0 \<le> k"
      and c: "\<And>ps. captureLoop (caretAt (TextRef a k) (nat off)) a ls (Suc k0) ps False =
        \<lparr>pos_start = pos_start ps + nat (idx - (cp + int (length d))),
         pos_end = pos_start ps + nat (idx - (cp + int (length d)))\<rparr>"
      by blast
    have arith: "length d + nat (idx - (cp + int (length d))) = nat (idx - cp)"
      using lt Cons.prems by linarith
    show ?thesis
      using lt r k c arith by (auto simp: Let_def add.assoc)
  qed
qed


lemma isNumber_of_nat [simp]: "isNumber (JNum (of_nat n))"
  by (simp add: isNumber_def)

lemma geZero_of_nat [simp]: "geZero (JNum (of_nat n))"
  by (simp add: geZero_def)

lemma toInt_of_nat [simp]: "toInt (JNum (of_nat n)) = int n"
  by (simp add: toInt_def)

lemma valid_index_iff:
  "isNumber v \<and> geZero v \<longleftrightarrow> (\<exists>n::nat. v = JNum (of_nat n))"
proof
  assume a: "isNumber v \<and> geZero v"
  then obtain r where v: "v = JNum r" by (auto simp: isNumber_def split: jsval.splits)
  with a have r: "r = of_int \<lfloor>r\<rfloor>" and nn: "0 \<le> r" by (auto simp: isNumber_def geZero_def)
  from nn have "0 \<le> \<lfloor>r\<rfloor>" by simp
  then have "of_int \<lfloor>r\<rfloor> = (of_nat (nat \<lfloor>r\<rfloor>) :: rat)" by simp
  with r v have "v = JNum (of_nat (nat \<lfloor>r\<rfloor>))" by simp
  then show "\<exists>n::nat. v = JNum (of_nat n)" by blast
next
  assume "\<exists>n::nat. v = JNum (of_nat n)"
  then show "isNumber v \<and> geZero v" by auto
qed

lemma setCaret_valid_Normal:
  "fst (setCaretPositionWithin p a (JNum (of_nat n))) = Normal"
proof (cases "restoreLoop (createTreeWalker (elems p a)) 0 0 (int n)")
  case None
  then show ?thesis by (simp add: setCaretPositionWithin_def)
next
  case (Some t)
  obtain k off len where t: "t = (k, off, len)" by (cases t)
  from Some t restoreLoop_Some_bounds [of _ 0 0 "int n" k off len]
  have "0 \<le> off \<and> off \<le> int len" by simp
  with Some t show ?thesis by (simp add: setCaretPositionWithin_def)
qed

lemma setCaret_frame:
  "elems (snd (setCaretPositionWithin p a v)) = elems p"
  "calls (snd (setCaretPositionWithin p a v)) = calls p"
  "events (snd (setCaretPositionWithin p a v)) = events p"
  "settings (snd (setCaretPositionWithin p a v)) = settings p"
  "global_this (snd (setCaretPositionWithin p a v)) = global_this p"
  by (simp_all add: setCaretPositionWithin_def split: option.splits prod.splits)

lemma roundtrip_walker:
  assumes "n \<le> length (concat (createTreeWalker (elems p a)))"
  shows "getCaretOffsetWithin (snd (setCaretPositionWithin p a (JNum (of_nat n)))) a =
           \<lparr>pos_start = n, pos_end = n\<rparr>"
proof (cases "createTreeWalker (elems p a) = []")
  case True
  with assms show ?thesis
    by (simp add: setCaretPositionWithin_def getCaretOffsetWithin_def)
next
  case False
  from assms have "int n \<le> 0 + int (length (concat (createTreeWalker (elems p a))))" by simp
  from restore_capture [OF _ this False, of 0 a]
  obtain k off len where
    r: "restoreLoop (createTreeWalker (elems p a)) 0 0 (int n) = Some (k, off, len)"
    and c: "\<And>ps. captureLoop (caretAt (TextRef a k) (nat off)) a (createTreeWalker (elems p a)) 0 ps False =
        \<lparr>pos_start = pos_start ps + nat (int n - 0), pos_end = pos_start ps + nat (int n - 0)\<rparr>"
    by auto
  from r restoreLoop_Some_bounds [of _ 0 0 "int n" k off len]
  have "0 \<le> off \<and> off \<le> int len" by simp
  with r c show ?thesis
    by (simp add: setCaretPositionWithin_def getCaretOffsetWithin_def)
qed

text \<open>
  Claim C1. Whatever the tree below the surface \<open>a\<close> and whatever the selection
  before, for every offset \<open>n\<close> up to the length of the logical text, restoring the caret
  at \<open>n\<close> (\<^verbatim>\<open>setCaretPositionWithin\<close>) completes normally and capturing afterwards
  (\<^verbatim>\<open>getCaretOffsetWithin\<close>) gives \<^verbatim>\<open>{start: n, end: n}\<close>.
\<close>

theorem C1_round_trip_offset_mapping:
  assumes "n \<le> length (logicalText (elems p a))"
  shows "fst (setCaretPositionWithin p a (JNum (of_nat n))) = Normal \<and>
         getCaretOffsetWithin (snd (setCaretPositionWithin p a (JNum (of_nat n)))) a =
           \<lparr>pos_start = n, pos_end = n\<rparr>"
  using assms roundtrip_walker [of n p a] setCaret_valid_Normal [of p a n]
  by (simp add: logicalText_def)

text \<open>
  Claim C10. A whole, non-negative offset strictly greater than the length of the
  logical text makes the walk run out of text nodes: the call returns normally and the
  state, the selection included, is exactly what it was (nothing is clamped).
\<close>

theorem C10_offset_beyond_text_is_silent:
  assumes "length (logicalText (elems p a)) < n"
  shows "setCaretPositionWithin p a (JNum (of_nat n)) = (Normal, p)"
proof -
  from assms have "0 + int (length (concat (createTreeWalker (elems p a)))) < int n"
    by (simp add: logicalText_def)
  then have "restoreLoop (createTreeWalker (elems p a)) 0 0 (int n) = None"
    by (rule restoreLoop_None)
  then show ?thesis by (simp add: setCaretPositionWithin_def)
qed

text \<open>
  Claim C6. Caret restore, through \<^verbatim>\<open>setCaretPosition\<close> or
  \<^verbatim>\<open>setCaretPositionWithin\<close>, throws the invalid-offset error exactly when its argument
  is not a non-negative whole number (not a number at all, \<^verbatim>\<open>NaN\<close>, infinite,
  fractional or negative), and then the state is left as it was.
\<close>

theorem C6_invalid_offset_error:
  "(fst (setCaretPosition p this v) = Throw InvalidOffsetError
      \<longleftrightarrow> \<not> (\<exists>n::nat. v = JNum (of_nat n))) \<and>
   (fst (setCaretPositionWithin p a v) = Throw InvalidOffsetError
      \<longleftrightarrow> \<not> (\<exists>n::nat. v = JNum (of_nat n))) \<and>
   (\<not> (\<exists>n::nat. v = JNum (of_nat n)) \<longrightarrow>
      setCaretPosition p this v = (Throw InvalidOffsetError, p) \<and>
      setCaretPositionWithin p a v = (Throw InvalidOffsetError, p))"
proof (cases "\<exists>n::nat. v = JNum (of_nat n)")
  case True
  then obtain n :: nat where v: "v = JNum (of_nat n)" by blast
  show ?thesis
    using setCaret_valid_Normal [of p a n] setCaret_valid_Normal [of p "el this" n] v
    by (auto simp: setCaretPosition_def)
next
  case False
  then have "\<not> (isNumber v \<and> geZero v)" by (simp add: valid_index_iff)
  then show ?thesis using False
    by (auto simp: setCaretPosition_def setCaretPositionWithin_def)
qed

text \<open>Claim C1 on the sample surface, offset 3 (the end of its second text node).\<close>

theorem C1_witness:
  "fst (setCaretPositionWithin sample 0 (JNum 3)) = Normal \<and>
   getCaretOffsetWithin (snd (setCaretPositionWithin sample 0 (JNum 3))) 0 =
     \<lparr>pos_start = 3, pos_end = 3\<rparr>"
proof -
  have h: "(3::nat) \<le> length (logicalText (elems sample 0))"
    by (simp add: sample_def loaded_def withText_def blankElement_def logicalText_def
        createTreeWalker_def)
  show ?thesis using C1_round_trip_offset_mapping [OF h] by simp
qed

text \<open>Claim C10 on the sample surface, whose text has six characters: offset 7.\<close>

theorem C10_witness:
  "setCaretPositionWithin sample 0 (JNum 7) = (Normal, sample)"
proof -
  have h: "length (logicalText (elems sample 0)) < (7::nat)"
    by (simp add: sample_def loaded_def withText_def blankElement_def logicalText_def
        createTreeWalker_def)
  show ?thesis using C10_offset_beyond_text_is_silent [OF h] by simp
qed

text \<open>Claim C6 at the offset -1.\<close>

theorem C6_witness:
  "setCaretPosition sample (Instance 0) (JNum (- 1)) = (Throw InvalidOffsetError, sample) \<and>
   setCaretPositionWithin sample 0 (JNum (- 1)) = (Throw InvalidOffsetError, sample)"
proof -
  have h: "\<not> (\<exists>n::nat. JNum (- 1) = JNum (of_nat n))"
  proof
    assume "\<exists>n::nat. JNum (- 1) = JNum (of_nat n)"
    then obtain n :: nat where "(- 1 :: rat) = of_nat n" by auto
    moreover have "(0::rat) \<le> of_nat n" by simp
    ultimately show False by simp
  qed
  show ?thesis using C6_invalid_offset_error [of sample "Instance 0" "JNum (- 1)" 0] h by blast
qed

section \<open>Escaping and rendering\<close>

lemma replaceAll_concat_map:
  "replaceAll c b (concat (map f s)) = concat (map (\<lambda>x. replaceAll c b (f x)) s)"
  by (induction s) (simp_all add: replaceAll_def)

lemma replaceAll_as_concat: "replaceAll c b s = concat (map (\<lambda>x. if x = c then b else [x]) s)"
  by (simp add: replaceAll_def)

lemma escape_one:
  "replaceAll (CHR 0x27) ''&#039;''
       (replaceAll (CHR 0x22) ''&quot;''
         (replaceAll (CHR ''>'') ''&gt;''
           (replaceAll (CHR ''<'') ''&lt;''
             (if x = CHR ''&'' then ''&amp;'' else [x])))) = escapeChar x"
  by (simp add: replaceAll_def escapeChar_def)

lemma escapeHTML_charwise: "escapeHTML t = concat (map escapeChar t)"
proof -
  have "escapeHTML t =
    concat (map (\<lambda>x. replaceAll (CHR 0x27) ''&#039;''
       (replaceAll (CHR 0x22) ''&quot;''
         (replaceAll (CHR ''>'') ''&gt;''
           (replaceAll (CHR ''<'') ''&lt;''
             (if x = CHR ''&'' then ''&amp;'' else [x]))))) t)"
    unfolding escapeHTML_def
    by (simp only: replaceAll_as_concat [of "CHR ''&''"] replaceAll_concat_map)
  then show ?thesis by (simp only: escape_one)
qed

lemma noRawMarkup_escapeChar: "noRawMarkup cs \<Longrightarrow> noRawMarkup (escapeChar c @ cs)"
  by (simp add: escapeChar_def entities_def startsWith_def)

lemma noRawMarkup_escapeHTML: "noRawMarkup (escapeHTML t)"
  unfolding escapeHTML_charwise
  by (induction t) (simp_all add: noRawMarkup_escapeChar)

lemma escapeHTML_no_delims:
  "c \<in> set (escapeHTML t) \<Longrightarrow> c \<noteq> CHR ''<'' \<and> c \<noteq> CHR ''>'' \<and> c \<noteq> CHR 0x22 \<and> c \<noteq> CHR 0x27"
  unfolding escapeHTML_charwise
  by (auto simp: escapeChar_def split: if_splits)

section \<open>The default rules only insert their tags\<close>

lemma startsWith_append: "startsWith s t \<Longrightarrow> s = t @ drop (length t) s"
  by (metis append_take_drop_id startsWith_def)

lemma untemplate_skip: "untemplate (length xs) (xs @ s) = untemplate 0 s"
  by (induction xs) simp_all

lemma untemplate_plain:
  "CHR ''<'' \<notin> set seg \<Longrightarrow> untemplate 0 (seg @ s) = map_option ((@) seg) (untemplate 0 s)"
proof (induction seg)
  case Nil
  show ?case by (cases "untemplate 0 s") simp_all
next
  case (Cons a seg)
  then have "a \<noteq> CHR ''<''" by auto
  with Cons show ?case by (cases "untemplate 0 s") simp_all
qed

lemma tagLengthAt_tag:
  "tag \<in> set templateTags \<Longrightarrow> tagLengthAt (tag @ s) = length tag"
  by (auto simp: templateTags_def tagLengthAt_def startsWith_def)

lemma untemplate_tag:
  assumes "tag \<in> set templateTags"
  shows "untemplate 0 (tag @ s) = untemplate 0 s"
proof -
  from assms obtain cs where t: "tag = CHR ''<'' # cs"
    by (auto simp: templateTags_def)
  have "untemplate 0 (tag @ s) = untemplate (length cs) (cs @ s)"
    using tagLengthAt_tag [OF assms, of s] by (simp add: t)
  then show ?thesis by (simp add: untemplate_skip)
qed

lemma untemplate_at_tag:
  assumes "untemplate 0 (CHR ''<'' # cs) = Some u"
  shows "\<exists>tag rest. tag \<in> set templateTags \<and> CHR ''<'' # cs = tag @ rest \<and>
           untemplate 0 rest = Some u"
proof -
  from assms have nz: "tagLengthAt (CHR ''<'' # cs) \<noteq> 0"
    by (auto split: if_splits)
  then obtain tag others where f: "filter (startsWith (CHR ''<'' # cs)) templateTags = tag # others"
    by (auto simp: tagLengthAt_def split: list.splits)
  then have "tag \<in> set (filter (startsWith (CHR ''<'' # cs)) templateTags)" by simp
  then have mem: "tag \<in> set templateTags" and sw: "startsWith (CHR ''<'' # cs) tag" by auto
  from startsWith_append [OF sw]
  have eq: "CHR ''<'' # cs = tag @ drop (length tag) (CHR ''<'' # cs)" .
  from assms untemplate_tag [OF mem, of "drop (length tag) (CHR ''<'' # cs)"] eq
  have "untemplate 0 (drop (length tag) (CHR ''<'' # cs)) = Some u" by simp
  with mem eq show ?thesis by blast
qed

lemma isWord_not_lt: "isWord c \<Longrightarrow> c \<noteq> CHR ''<''"
  by (auto simp: isWord_def isAlpha_def isDigit_def)

lemma isHashChar_not_lt: "isHashChar c \<Longrightarrow> c \<noteq> CHR ''<''"
  by (auto simp: isHashChar_def isAlpha_def isDigit_def)

lemma isSpace_not_lt: "isSpace c \<Longrightarrow> c \<noteq> CHR ''<''"
  by (auto simp: isSpace_def)

lemma isTailChar_not_lt: "isTailChar c \<Longrightarrow> c \<noteq> CHR ''<''"
  by (auto simp: isTailChar_def isWord_def isAlpha_def isDigit_def)

lemma isHostChar_isTailChar: "isHostChar c \<Longrightarrow> isTailChar c"
  by (auto simp: isHostChar_def isTailChar_def)

lemma takeWhile_prefix: "takeWhile P s = take (length (takeWhile P s)) s"
  by (induction s) auto

lemma set_takeWhile_P: "c \<in> set (takeWhile P s) \<Longrightarrow> P c"
  by (induction s) (auto split: if_splits)

lemma prefix_length_le:
  assumes "xs = take (length xs) s"
  shows "length xs \<le> length s"
proof -
  from assms have "length xs = length (take (length xs) s)" by simp
  then show ?thesis by simp
qed

text \<open>What a match of the mention pattern is.\<close>

lemma matchMention_Some:
  assumes "matchMention pre rest = Some (n, caps)"
  shows "0 < n" and "n \<le> length rest" and "caps = [Some (take n rest), Some (drop 1 (take n rest))]"
    and "CHR ''<'' \<notin> set (take n rest)"
proof -
  from assms obtain c cs where r: "rest = c # cs" and c: "c = CHR ''@''"
    and ne: "takeWhile isWord cs \<noteq> []"
    and n: "n = 1 + length (takeWhile isWord cs)"
    and caps: "caps = [Some (c # takeWhile isWord cs), Some (takeWhile isWord cs)]"
    by (auto simp: matchMention_def split: list.splits if_splits)
  have tk: "take n rest = c # takeWhile isWord cs"
    using takeWhile_prefix [of isWord cs] by (simp add: r n)
  show "0 < n" by (simp add: n)
  show "n \<le> length rest" by (simp add: r n length_takeWhile_le)
  show "caps = [Some (take n rest), Some (drop 1 (take n rest))]" by (simp add: tk caps)
  show "CHR ''<'' \<notin> set (take n rest)"
    using set_takeWhile_P [of "CHR ''<''" isWord cs] isWord_not_lt by (auto simp: tk c)
qed

text \<open>What a match of the hashtag pattern is.\<close>

lemma hashBody_Some:
  assumes "hashBody s = Some body"
  shows "body = take (length body) s" and "body \<noteq> []" and "CHR ''<'' \<notin> set body"
proof -
  from assms obtain c cs where s: "s = c # cs" and c: "c = CHR ''#''"
    and b: "body = c # takeWhile isHashChar cs"
    by (auto simp: hashBody_def split: list.splits if_splits)
  show "body = take (length body) s"
    using takeWhile_prefix [of isHashChar cs] by (simp add: s b)
  show "body \<noteq> []" by (simp add: b)
  show "CHR ''<'' \<notin> set body"
    using set_takeWhile_P [of "CHR ''<''" isHashChar cs] isHashChar_not_lt by (auto simp: b c)
qed

lemma matchHashtag_Some:
  assumes "matchHashtag pre rest = Some (n, caps)"
  shows "\<exists>g1 g2. caps = [Some g1, Some g2] \<and> g1 @ g2 = take n rest \<and>
           0 < n \<and> n \<le> length rest \<and> CHR ''<'' \<notin> set (take n rest)"
proof (cases "if pre = [] then hashBody rest else None")
  case (Some body)
  then have hb: "hashBody rest = Some body" by (auto split: if_splits)
  from assms Some have n: "n = length body" and caps: "caps = [Some [], Some body]"
    by (auto simp: matchHashtag_def)
  note f = hashBody_Some [OF hb]
  have tk: "take n rest = body" using f(1) n by simp
  have "n \<le> length rest"
    using prefix_length_le [OF f(1)] n by simp
  with f tk n caps show ?thesis by auto
next
  case None
  with assms obtain s r body where r: "rest = s # r" and sp: "isSpace s"
    and hb: "hashBody r = Some body" and n: "n = 1 + length body"
    and caps: "caps = [Some [s], Some body]"
    by (auto simp: matchHashtag_def split: list.splits if_splits option.splits)
  note f = hashBody_Some [OF hb]
  have tk: "take n rest = s # body" using f(1) by (simp add: r n)
  have "length body \<le> length r"
    by (rule prefix_length_le [OF f(1)])
  then have "n \<le> length rest" by (simp add: r n)
  moreover have "CHR ''<'' \<notin> set (take n rest)"
    using f(3) isSpace_not_lt [OF sp] by (auto simp: tk)
  ultimately show ?thesis using tk caps n by auto
qed

text \<open>What a match of the URL pattern is.\<close>

lemma headIs_chars:
  "headIs s ps \<Longrightarrow> \<forall>p \<in> set ps. Q (fst p) \<and> Q (snd p) \<Longrightarrow>
   length ps \<le> length s \<and> (\<forall>c \<in> set (take (length ps) s). Q c)"
  by (induction s ps rule: headIs.induct) auto

lemma schemeLength_Some:
  assumes "schemeLength s = Some k"
  shows "0 < k" and "k \<le> length s" and "\<forall>c \<in> set (take k s). isTailChar c"
proof -
  have q: "\<forall>p \<in> set [(CHR ''h'', CHR ''H''), (CHR ''t'', CHR ''T''), (CHR ''t'', CHR ''T''),
                   (CHR ''p'', CHR ''P''), (CHR ''s'', CHR ''S''), (CHR '':'', CHR '':''),
                   (CHR ''/'', CHR ''/''), (CHR ''/'', CHR ''/'')]. isTailChar (fst p) \<and> isTailChar (snd p)"
    by (simp add: isTailChar_def isWord_def isAlpha_def)
  have q': "\<forall>p \<in> set [(CHR ''h'', CHR ''H''), (CHR ''t'', CHR ''T''), (CHR ''t'', CHR ''T''),
                   (CHR ''p'', CHR ''P''), (CHR '':'', CHR '':''),
                   (CHR ''/'', CHR ''/''), (CHR ''/'', CHR ''/'')]. isTailChar (fst p) \<and> isTailChar (snd p)"
    by (simp add: isTailChar_def isWord_def isAlpha_def)
  from assms consider
    (a) "k = 8" "headIs s [(CHR ''h'', CHR ''H''), (CHR ''t'', CHR ''T''), (CHR ''t'', CHR ''T''),
                   (CHR ''p'', CHR ''P''), (CHR ''s'', CHR ''S''), (CHR '':'', CHR '':''),
                   (CHR ''/'', CHR ''/''), (CHR ''/'', CHR ''/'')]"
    | (b) "k = 7" "headIs s [(CHR ''h'', CHR ''H''), (CHR ''t'', CHR ''T''), (CHR ''t'', CHR ''T''),
                   (CHR ''p'', CHR ''P''), (CHR '':'', CHR '':''),
                   (CHR ''/'', CHR ''/''), (CHR ''/'', CHR ''/'')]"
    unfolding schemeLength_def by (auto split: if_splits)
  then have "0 < k \<and> k \<le> length s \<and> (\<forall>c \<in> set (take k s). isTailChar c)"
  proof cases
    case a
    from headIs_chars [OF a(2) q] a(1) show ?thesis by (simp add: eval_nat_numeral)
  next
    case b
    from headIs_chars [OF b(2) q'] b(1) show ?thesis by (simp add: eval_nat_numeral)
  qed
  then show "0 < k" and "k \<le> length s" and "\<forall>c \<in> set (take k s). isTailChar c" by auto
qed

lemma dotLabels_prefix:
  "take (length (concat (dotLabels s))) s = concat (dotLabels s) \<and>
   (\<forall>c \<in> set (concat (dotLabels s)). isTailChar c)"
proof (induction s rule: dotLabels.induct)
  case 1
  show ?case by simp
next
  case (2 c cs)
  show ?case
  proof (cases "c = CHR ''.'' \<and> takeWhile isHostChar cs \<noteq> []")
    case False
    then show ?thesis by auto
  next
    case True
    note ih = 2 [OF True]
    let ?run = "takeWhile isHostChar cs"
    let ?rest = "dropWhile isHostChar cs"
    have cs: "cs = ?run @ ?rest" by simp
    have d: "dotLabels (c # cs) = (c # ?run) # dotLabels ?rest" using True by simp
    have "take (length (concat (dotLabels (c # cs)))) (c # cs) =
        c # take (length ?run + length (concat (dotLabels ?rest))) (?run @ ?rest)"
      using True by simp
    also have "\<dots> = c # ?run @ take (length (concat (dotLabels ?rest))) ?rest"
      by (simp del: takeWhile_dropWhile_id)
    also have "\<dots> = concat (dotLabels (c # cs))" using ih True by simp
    finally have a: "take (length (concat (dotLabels (c # cs)))) (c # cs) = concat (dotLabels (c # cs))" .
    have "isTailChar c" using True by (simp add: isTailChar_def)
    moreover have "\<forall>x \<in> set ?run. isTailChar x"
      using set_takeWhile_P [of _ isHostChar cs] isHostChar_isTailChar by blast
    ultimately have b: "\<forall>x \<in> set (concat (dotLabels (c # cs))). isTailChar x"
      using ih True by auto
    from a b show ?thesis by blast
  qed
qed

lemma rev_dropWhile_rev_prefix: "\<exists>zs. xs = rev (dropWhile P (rev xs)) @ zs"
proof (induction xs rule: rev_induct)
  case Nil
  show ?case by simp
next
  case (snoc x xs)
  then obtain zs where z: "xs = rev (dropWhile P (rev xs)) @ zs" by blast
  show ?case
  proof (cases "P x")
    case True
    have "xs @ [x] = rev (dropWhile P (rev xs)) @ (zs @ [x])" using z by simp
    then have "\<exists>zs'. xs @ [x] = rev (dropWhile P (rev xs)) @ zs'" by (rule exI)
    then show ?thesis using True by simp
  next
    case False
    then show ?thesis by simp
  qed
qed

lemma urlTail_prefix:
  "take (length (urlTail s)) s = urlTail s \<and> (\<forall>c \<in> set (urlTail s). isTailChar c)"
proof -
  obtain zs where z: "takeWhile isTailChar s = urlTail s @ zs"
    using rev_dropWhile_rev_prefix [of "takeWhile isTailChar s" "\<lambda>c. \<not> isTailEnd c"]
    by (auto simp: urlTail_def)
  have "s = takeWhile isTailChar s @ dropWhile isTailChar s" by simp
  then have "s = urlTail s @ (zs @ dropWhile isTailChar s)" using z by simp
  then have "take (length (urlTail s)) s = take (length (urlTail s)) (urlTail s @ (zs @ dropWhile isTailChar s))"
    by simp
  then have a: "take (length (urlTail s)) s = urlTail s" by simp
  have "set (urlTail s) \<subseteq> set (takeWhile isTailChar s)" using z by (metis set_append Un_upper1)
  then have "\<forall>c \<in> set (urlTail s). isTailChar c"
    using set_takeWhile_P [of _ isTailChar s] by blast
  with a show ?thesis by blast
qed

lemma take_add_append:
  "take k s = xs \<Longrightarrow> k \<le> length s \<Longrightarrow> take m (drop k s) = ys \<Longrightarrow>
   take (k + m) s = xs @ ys"
  by (metis take_add)

lemma matchUrl_Some:
  assumes "matchUrl pre rest = Some (n, caps)"
  shows "\<exists>c2 c3 c4. caps = [Some (take n rest), c2, c3, c4]" and "0 < n" and "n \<le> length rest"
    and "CHR ''<'' \<notin> set (take n rest)"
proof -
  from assms obtain k where k: "schemeLength rest = Some k"
    by (auto simp: matchUrl_def split: option.splits)
  note sk = schemeLength_Some [OF k]
  define r1 where "r1 = drop k rest"
  define hostname where "hostname = takeWhile isHostChar r1"
  define r2 where "r2 = dropWhile isHostChar r1"
  define labels where "labels = dotLabels r2"
  define r3 where "r3 = drop (length (concat labels)) r2"
  define tail where "tail = urlTail r3"
  from assms k have n: "n = k + length hostname + length (concat labels) + length tail"
    and caps: "caps = [Some (take n rest), Some (take (k - 3) rest), Some (last labels),
                             if tail = [] then None else Some tail]"
    by (auto simp: matchUrl_def Let_def r1_def hostname_def r2_def labels_def r3_def tail_def
        split: if_splits)
  have e0: "rest = take k rest @ r1" by (simp add: r1_def)
  have e1: "r1 = hostname @ r2" by (simp add: hostname_def r2_def)
  have e2: "r2 = concat labels @ r3"
    using dotLabels_prefix [of r2] unfolding labels_def r3_def
    by (metis append_take_drop_id)
  have e3: "r3 = tail @ drop (length tail) r3"
    using urlTail_prefix [of r3] unfolding tail_def by (metis append_take_drop_id)
  have whole: "rest = (take k rest @ hostname @ concat labels @ tail) @ drop (length tail) r3"
    using e0 e1 e2 e3 by (metis append.assoc)
  have len: "length (take k rest @ hostname @ concat labels @ tail) = n"
    using sk(2) by (simp add: n)
  have tk: "take n rest = take k rest @ hostname @ concat labels @ tail"
    using whole len by (metis append_eq_conv_conj)
  have "\<forall>c \<in> set (take n rest). isTailChar c"
    unfolding tk
    using sk(3) set_takeWhile_P [of _ isHostChar r1] isHostChar_isTailChar
      dotLabels_prefix [of r2] urlTail_prefix [of r3]
    by (auto simp: hostname_def labels_def tail_def)
  then show "CHR ''<'' \<notin> set (take n rest)" using isTailChar_not_lt by blast
  show "\<exists>c2 c3 c4. caps = [Some (take n rest), c2, c3, c4]" using caps by blast
  show "0 < n" using sk(1) by (simp add: n)
  show "n \<le> length rest" using whole len by (metis length_append le_add1)
qed

lemma expand_hashtag:
  \<open>expand ''$1<span class="hashtag">$2</span>'' matched pre post [Some g1, Some g2] =
     g1 @ ''<span class="hashtag">'' @ g2 @ ''</span>''\<close>
  by (simp add: capture_def isDigit_def digitValue_def)

lemma expand_url:
  \<open>expand ''<span class="url">$1</span>'' matched pre post [Some g1, c2, c3, c4] =
     ''<span class="url">'' @ g1 @ ''</span>''\<close>
  by (simp add: capture_def isDigit_def digitValue_def)

lemma expand_mention:
  \<open>expand ''<span class="mention">$1</span>'' matched pre post [Some g1, c2] =
     ''<span class="mention">'' @ g1 @ ''</span>''\<close>
  by (simp add: capture_def isDigit_def digitValue_def)

lemma pass_mention:
  "tag \<in> set templateTags \<Longrightarrow>
   replaceFrom matchMention tpl pre (tag @ s) = tag @ replaceFrom matchMention tpl (pre @ tag) s"
  by (auto simp: templateTags_def matchMention_def)

lemma pass_url:
  "tag \<in> set templateTags \<Longrightarrow>
   replaceFrom matchUrl tpl pre (tag @ s) = tag @ replaceFrom matchUrl tpl (pre @ tag) s"
  by (auto simp: templateTags_def matchUrl_def schemeLength_def)

lemma pass_hashtag:
  "tag \<in> set templateTags \<Longrightarrow>
   replaceFrom matchHashtag tpl pre (tag @ s) = tag @ replaceFrom matchHashtag tpl (pre @ tag) s"
  by (auto simp: templateTags_def matchHashtag_def hashBody_def isSpace_def)

lemma replaceFrom_untemplate:
  assumes pass: "\<And>tag pre s. tag \<in> set templateTags \<Longrightarrow>
            replaceFrom m tpl pre (tag @ s) = tag @ replaceFrom m tpl (pre @ tag) s"
    and wrap: "\<And>pre rest n caps. m pre rest = Some (n, caps) \<Longrightarrow>
            0 < n \<and> n \<le> length rest \<and> CHR ''<'' \<notin> set (take n rest) \<and>
            (\<forall>s. untemplate 0 (expand tpl (take n rest) pre (drop n rest) caps @ s) =
                  map_option ((@) (take n rest)) (untemplate 0 s))"
  shows "untemplate 0 s = Some u \<Longrightarrow> untemplate 0 (replaceFrom m tpl pre s) = Some u"
proof (induction s arbitrary: pre u rule: length_induct)
  case (1 s)
  note ih = "1.IH" [rule_format]
  show ?case
  proof (cases s)
    case Nil
    have "m pre [] = None"
    proof (cases "m pre []")
      case None
      then show ?thesis .
    next
      case (Some r)
      obtain n caps where "r = (n, caps)" by (cases r)
      with Some wrap [of pre "[]" n caps] show ?thesis by auto
    qed
    with Nil "1.prems" show ?thesis by simp
  next
    case (Cons c cs)
    show ?thesis
    proof (cases "c = CHR ''<''")
      case True
      with "1.prems" Cons untemplate_at_tag [of cs u]
      obtain tag rest where mem: "tag \<in> set templateTags" and eq: "s = tag @ rest"
        and un: "untemplate 0 rest = Some u"
        by auto
      from mem have "tag \<noteq> []" by (auto simp: templateTags_def)
      then have "length rest < length s" by (simp add: eq)
      from ih [OF this un, of "pre @ tag"]
      have "untemplate 0 (replaceFrom m tpl (pre @ tag) rest) = Some u" .
      then show ?thesis by (simp add: eq pass [OF mem] untemplate_tag [OF mem])
    next
      case False
      show ?thesis
      proof (cases "m pre s")
        case None
        from "1.prems" False Cons obtain u' where u: "u = c # u'" and un: "untemplate 0 cs = Some u'"
          by auto
        from ih [OF _ un, of "pre @ [c]"] Cons
        have "untemplate 0 (replaceFrom m tpl (pre @ [c]) cs) = Some u'" by simp
        with None Cons False u show ?thesis by simp
      next
        case (Some r)
        obtain n caps where r: "r = (n, caps)" by (cases r)
        from wrap [of pre s n caps] Some r
        have n0: "0 < n" and nl: "n \<le> length s" and nolt: "CHR ''<'' \<notin> set (take n s)"
          and ex: "\<And>x. untemplate 0 (expand tpl (take n s) pre (drop n s) caps @ x) =
                  map_option ((@) (take n s)) (untemplate 0 x)"
          by auto
        have "untemplate 0 (take n s @ drop n s) =
            map_option ((@) (take n s)) (untemplate 0 (drop n s))"
          by (rule untemplate_plain [OF nolt])
        with "1.prems" have "map_option ((@) (take n s)) (untemplate 0 (drop n s)) = Some u"
          by simp
        then obtain u' where u: "u = take n s @ u'"
          and un: "untemplate 0 (drop n s) = Some u'"
          by (cases "untemplate 0 (drop n s)") auto
        have "length (drop n s) < length s" using n0 Cons by simp
        from ih [OF this un, of "pre @ take n s"]
        have rec: "untemplate 0 (replaceFrom m tpl (pre @ take n s) (drop n s)) = Some u'" .
        have "replaceFrom m tpl pre s =
            expand tpl (take n s) pre (drop n s) caps @
            replaceFrom m tpl (pre @ take n s) (drop n s)"
          using Some r n0 by (simp add: Cons)
        then show ?thesis by (simp add: ex rec u)
      qed
    qed
  qed
qed

lemma hashtag_rule_untemplate:
  \<open>untemplate 0 s = Some u \<Longrightarrow>
   untemplate 0 (replace h s HashtagRegExp ''$1<span class="hashtag">$2</span>'') = Some u\<close>
  unfolding replace_def matchAt_def regexp.case
proof (rule replaceFrom_untemplate [OF pass_hashtag])
  fix pre rest n caps
  assume m: "matchHashtag pre rest = Some (n, caps)"
  from matchHashtag_Some [OF m] obtain g1 g2 where caps: "caps = [Some g1, Some g2]"
    and g: "g1 @ g2 = take n rest" and n0: "0 < n" and nl: "n \<le> length rest"
    and nolt: "CHR ''<'' \<notin> set (take n rest)"
    by blast
  from nolt g have l1: "CHR ''<'' \<notin> set g1" and l2: "CHR ''<'' \<notin> set g2"
    by (metis Un_iff set_append)+
  have o: \<open>''<span class="hashtag">'' \<in> set templateTags\<close> and c: "''</span>'' \<in> set templateTags"
    by (simp_all add: templateTags_def)
  have \<open>untemplate 0 (expand ''$1<span class="hashtag">$2</span>'' (take n rest) pre (drop n rest) caps @ s) =
      map_option ((@) (take n rest)) (untemplate 0 s)\<close> for s
  proof -
    have e: \<open>expand ''$1<span class="hashtag">$2</span>'' (take n rest) pre (drop n rest) caps =
        g1 @ ''<span class="hashtag">'' @ g2 @ ''</span>''\<close>
      by (simp only: caps expand_hashtag)
    have \<open>untemplate 0 (g1 @ ''<span class="hashtag">'' @ g2 @ ''</span>'' @ s) =
        map_option ((@) g1) (map_option ((@) g2) (untemplate 0 s))\<close>
      by (simp only: untemplate_plain [OF l1] untemplate_plain [OF l2] untemplate_tag [OF o]
          untemplate_tag [OF c])
    also have "\<dots> = map_option ((@) (g1 @ g2)) (untemplate 0 s)"
      by (cases "untemplate 0 s") simp_all
    finally show ?thesis
      by (simp only: e g append_assoc)
  qed
  with n0 nl nolt
  show \<open>0 < n \<and> n \<le> length rest \<and> CHR ''<'' \<notin> set (take n rest) \<and>
        (\<forall>s. untemplate 0 (expand ''$1<span class="hashtag">$2</span>'' (take n rest) pre (drop n rest) caps @ s) =
             map_option ((@) (take n rest)) (untemplate 0 s))\<close>
    by blast
qed

lemma wrapped_untemplate:
  assumes "CHR ''<'' \<notin> set seg" and "opening \<in> set templateTags"
  shows "untemplate 0 ((opening @ seg @ ''</span>'') @ s) = map_option ((@) seg) (untemplate 0 s)"
proof -
  have c: "''</span>'' \<in> set templateTags" by (simp add: templateTags_def)
  have "untemplate 0 (opening @ seg @ ''</span>'' @ s) = map_option ((@) seg) (untemplate 0 s)"
    by (simp only: untemplate_plain [OF assms(1)] untemplate_tag [OF assms(2)]
        untemplate_tag [OF c])
  then show ?thesis by simp
qed

lemma url_rule_untemplate:
  \<open>untemplate 0 s = Some u \<Longrightarrow>
   untemplate 0 (replace h s UrlRegExp ''<span class="url">$1</span>'') = Some u\<close>
  unfolding replace_def matchAt_def regexp.case
proof (rule replaceFrom_untemplate [OF pass_url])
  fix pre rest n caps
  assume m: "matchUrl pre rest = Some (n, caps)"
  note f = matchUrl_Some [OF m]
  from f(1) obtain c2 c3 c4 where caps: "caps = [Some (take n rest), c2, c3, c4]" by blast
  have o: \<open>''<span class="url">'' \<in> set templateTags\<close> by (simp add: templateTags_def)
  have \<open>untemplate 0 (expand ''<span class="url">$1</span>'' (take n rest) pre (drop n rest) caps @ s) =
      map_option ((@) (take n rest)) (untemplate 0 s)\<close> for s
    using wrapped_untemplate [OF f(4) o, of s] by (simp only: caps expand_url)
  with f
  show \<open>0 < n \<and> n \<le> length rest \<and> CHR ''<'' \<notin> set (take n rest) \<and>
        (\<forall>s. untemplate 0 (expand ''<span class="url">$1</span>'' (take n rest) pre (drop n rest) caps @ s) =
             map_option ((@) (take n rest)) (untemplate 0 s))\<close>
    by blast
qed

lemma mention_rule_untemplate:
  \<open>untemplate 0 s = Some u \<Longrightarrow>
   untemplate 0 (replace h s MentionRegExp ''<span class="mention">$1</span>'') = Some u\<close>
  unfolding replace_def matchAt_def regexp.case
proof (rule replaceFrom_untemplate [OF pass_mention])
  fix pre rest n caps
  assume m: "matchMention pre rest = Some (n, caps)"
  note f = matchMention_Some [OF m]
  have o: \<open>''<span class="mention">'' \<in> set templateTags\<close> by (simp add: templateTags_def)
  have \<open>untemplate 0 (expand ''<span class="mention">$1</span>'' (take n rest) pre (drop n rest) caps @ s) =
      map_option ((@) (take n rest)) (untemplate 0 s)\<close> for s
    using wrapped_untemplate [OF f(4) o, of s] by (simp only: f(3) expand_mention)
  with f
  show \<open>0 < n \<and> n \<le> length rest \<and> CHR ''<'' \<notin> set (take n rest) \<and>
        (\<forall>s. untemplate 0 (expand ''<span class="mention">$1</span>'' (take n rest) pre (drop n rest) caps @ s) =
             map_option ((@) (take n rest)) (untemplate 0 s))\<close>
    by blast
qed

lemma untemplate_escapeHTML: "untemplate 0 (escapeHTML t) = Some (escapeHTML t)"
proof -
  have "CHR ''<'' \<notin> set (escapeHTML t)" using escapeHTML_no_delims [of "CHR ''<''" t] by blast
  from untemplate_plain [OF this, of "[]"] show ?thesis by simp
qed

lemma render_default_untemplate:
  "untemplate 0 (render h (regexs defaultSettings) t) = Some (escapeHTML t)"
  unfolding render_def defaultSettings_def
  by (simp add: mention_rule_untemplate url_rule_untemplate hashtag_rule_untemplate
      untemplate_escapeHTML)

section \<open>What each step leaves alone\<close>

lemma setInnerHTML_frame:
  "calls (setInnerHTML h p a m) = calls p"
  "events (setInnerHTML h p a m) = events p"
  "settings (setInnerHTML h p a m) = settings p"
  "global_this (setInnerHTML h p a m) = global_this p"
  "elems (setInnerHTML h p a m) a = (elems p a)\<lparr>children := parseHTML h m\<rparr>"
  by (simp_all add: setInnerHTML_def)

lemma highlight_frame:
  "calls (highlight h p a) = calls p"
  "events (highlight h p a) = events p"
  "settings (highlight h p a) = settings p"
  "global_this (highlight h p a) = global_this p"
  "elems (highlight h p a) a =
     (elems p a)\<lparr>children := parseHTML h (render h (regexs (settings p)) (innerText h (elems p a)))\<rparr>"
  by (simp_all add: highlight_def setInnerHTML_frame)


lemma trigger_frame:
  "elems (snd (trigger p name this)) = elems p"
  "window_selection (snd (trigger p name this)) = window_selection p"
  by (simp_all add: trigger_def split: option.splits jsval.splits)


section \<open>Escaping and the rules\<close>

text \<open>
  Claim C4 fails as stated once a rule set comes through the options. With the single
  rule \<^verbatim>\<open>{pattern: /amp;/g, template: ''}\<close> and the text "a&b", the escaped text
  "a&amp;b" is rewritten to "a&b": the ampersand of the original text stands
  unescaped in the final markup, and the rule has generated no markup at all.
\<close>

theorem C4_counterexample:
  "render plainHost stripAmp ''a&b'' = ''a&b'' \<and>
   escapeHTML ''a&b'' = ''a&amp;b'' \<and>
   \<not> noRawMarkup (render plainHost stripAmp ''a&b'') \<and>
   untemplate 0 (render plainHost stripAmp ''a&b'') \<noteq> Some (escapeHTML ''a&b'')"
  by code_simp

text \<open>
  Claim C4 as amended. For every input text the five sequential replacements of
  \<open>escapeHTML\<close> amount to escaping each character on its own, so the text that the
  first rule receives (and the final markup when there is no rule) holds no
  \<^verbatim>\<open><\<close>, \<^verbatim>\<open>>\<close> or quote and no ampersand that does not open an entity. With the
  default rule set the final markup is that escaped text with span tags of the three
  templates inserted and nothing else changed: taking the tags out gives the escaped
  text back. This is what \<^verbatim>\<open>utils.highlight\<close> installs while the settings hold the
  default rules.
\<close>

theorem C4_escape_then_default_rules:
  "escapeHTML t = concat (map escapeChar t) \<and>
   noRawMarkup (escapeHTML t) \<and>
   render h [] t = escapeHTML t \<and>
   untemplate 0 (render h (regexs defaultSettings) t) = Some (escapeHTML t) \<and>
   (regexs (settings p) = regexs defaultSettings \<longrightarrow>
      children (elems (highlight h p a) a) =
        parseHTML h (render h (regexs defaultSettings) (innerText h (elems p a))) \<and>
      untemplate 0 (render h (regexs defaultSettings) (innerText h (elems p a))) =
        Some (escapeHTML (innerText h (elems p a))))"
  by (simp add: escapeHTML_charwise [symmetric] noRawMarkup_escapeHTML render_default_untemplate
      highlight_frame)
    (simp add: render_def)

text \<open>
  Claim C4 as amended, on a text with a hashtag, a URL, a mention and three of the five
  characters.
\<close>

theorem C4_witness:
  \<open>render plainHost (regexs defaultSettings)
      ''check #topic at https://example.com/p and @user <&>'' =
     ''check <span class="hashtag">#topic</span> at <span class="url">https://example.com/p</span> and <span class="mention">@user</span> &lt;&amp;&gt;'' \<and>
   untemplate 0 (render plainHost (regexs defaultSettings)
      ''check #topic at https://example.com/p and @user <&>'') =
     Some ''check #topic at https://example.com/p and @user &lt;&amp;&gt;'' \<and>
   noRawMarkup ''check #topic at https://example.com/p and @user &lt;&amp;&gt;'' \<and>
   regexs (settings twoSurfaces) = regexs defaultSettings \<and>
   children (elems (highlight plainHost twoSurfaces 0) 0) =
     parseHTML plainHost (render plainHost (regexs defaultSettings)
        (innerText plainHost (elems twoSurfaces 0)))\<close>
proof -
  note th = C4_escape_then_default_rules [of "''check #topic at https://example.com/p and @user <&>''"
      plainHost twoSurfaces 0]
  have r: \<open>render plainHost (regexs defaultSettings)
      ''check #topic at https://example.com/p and @user <&>'' =
     ''check <span class="hashtag">#topic</span> at <span class="url">https://example.com/p</span> and <span class="mention">@user</span> &lt;&amp;&gt;''\<close>
    by code_simp
  have e: "escapeHTML ''check #topic at https://example.com/p and @user <&>'' =
     ''check #topic at https://example.com/p and @user &lt;&amp;&gt;''"
    by code_simp
  have s: "regexs (settings twoSurfaces) = regexs defaultSettings" by code_simp
  from th have u: "untemplate 0 (render plainHost (regexs defaultSettings)
      ''check #topic at https://example.com/p and @user <&>'') =
     Some (escapeHTML ''check #topic at https://example.com/p and @user <&>'')"
    by blast
  from th have n: "noRawMarkup (escapeHTML ''check #topic at https://example.com/p and @user <&>'')"
    by blast
  from th s have c: "children (elems (highlight plainHost twoSurfaces 0) 0) =
     parseHTML plainHost (render plainHost (regexs defaultSettings)
        (innerText plainHost (elems twoSurfaces 0)))"
    by blast
  from r u n s c show ?thesis unfolding e by blast
qed

section \<open>Subscriptions\<close>

lemma dom_events_loaded: "dom (events (loaded doc)) = {''change'', ''destroy''}"
  by (auto simp: loaded_def defaultEvents_def)

lemma dom_events_attachEvent:
  "dom (events (snd (attachEvent p name cb))) = dom (events p)"
  by (auto simp: attachEvent_def)

lemma dom_events_detachEvent:
  "dom (events (snd (detachEvent p name))) = dom (events p)"
  by (auto simp: detachEvent_def)

text \<open>
  Claim C7. The table \<^verbatim>\<open>events\<close> has the two keys \<^verbatim>\<open>change\<close> and \<^verbatim>\<open>destroy\<close> from
  the start and never gains or loses one. Then \<^verbatim>\<open>on(name, handler)\<close> throws the
  unsupported-event error for every other name, throws the invalid-handler error for a
  handler that is not a function, and otherwise stores the handler; subscribing twice
  to one name leaves the state that subscribing the second handler alone would.
\<close>

theorem C7_subscribe:
  assumes "dom (events p) = {''change'', ''destroy''}"
  shows "on p this name cb =
           (if name \<noteq> ''change'' \<and> name \<noteq> ''destroy'' then (Throw UnsupportedEventError, p)
            else if \<not> isFunction cb then (Throw InvalidHandlerError, p)
            else (Normal, p\<lparr>events := (events p)(name \<mapsto> cb)\<rparr>)) \<and>
         ((name = ''change'' \<or> name = ''destroy'') \<and> isFunction cb \<and> isFunction cb' \<longrightarrow>
            on (snd (on p this name cb)) this' name cb' =
              (Normal, p\<lparr>events := (events p)(name \<mapsto> cb')\<rparr>))"
proof -
  have k: "events p name \<noteq> None \<longleftrightarrow> name = ''change'' \<or> name = ''destroy''"
    using assms by (auto simp: dom_def)
  show ?thesis using k by (auto simp: on_def attachEvent_def)
qed

text \<open>Claim C7 right after loading: the name "foo", a string as handler, two handlers in a row.\<close>

theorem C7_witness:
  "on (loaded (withText [])) (Instance 0) ''foo'' (JFunction 1) =
     (Throw UnsupportedEventError, loaded (withText [])) \<and>
   on (loaded (withText [])) (Instance 0) ''change'' (JString ''f'') =
     (Throw InvalidHandlerError, loaded (withText [])) \<and>
   on (snd (on (loaded (withText [])) (Instance 0) ''change'' (JFunction 1)))
      (Instance 0) ''change'' (JFunction 2) =
     (Normal, (loaded (withText []))\<lparr>events := (events (loaded (withText [])))(''change'' \<mapsto> JFunction 2)\<rparr>)"
proof -
  note t = C7_subscribe [OF dom_events_loaded]
  have a: "on (loaded (withText [])) (Instance 0) ''foo'' (JFunction 1) =
     (Throw UnsupportedEventError, loaded (withText []))"
    using t [of "withText []" "Instance 0" "''foo''" "JFunction 1", THEN conjunct1] by simp
  have b: "on (loaded (withText [])) (Instance 0) ''change'' (JString ''f'') =
     (Throw InvalidHandlerError, loaded (withText []))"
    using t [of "withText []" "Instance 0" "''change''" "JString ''f''", THEN conjunct1]
    by (simp add: isFunction_def)
  have c: "on (snd (on (loaded (withText [])) (Instance 0) ''change'' (JFunction 1)))
      (Instance 0) ''change'' (JFunction 2) =
     (Normal, (loaded (withText []))\<lparr>events := (events (loaded (withText [])))(''change'' \<mapsto> JFunction 2)\<rparr>)"
    using t [of "withText []" "Instance 0" "''change''" "JFunction 1" "JFunction 2" "Instance 0",
        THEN conjunct2]
    by (simp add: isFunction_def)
  from a b c show ?thesis by blast
qed

section \<open>Paste and line break\<close>

text \<open>
  Claim C8. When the clipboard lookup gives nothing (no clipboard object on the event
  or the window) or the empty string, \<^verbatim>\<open>onPaste\<close> completes normally, has called
  \<^verbatim>\<open>preventDefault\<close>, and leaves the whole state as it was: no text is changed,
  nothing is rendered, no callback is called.
\<close>

theorem C8_paste_without_payload:
  assumes "clipboardText p e = None \<or> clipboardText p e = Some []"
  shows "onPaste h p this e = (Normal, True, p)"
  using assms by (auto simp: onPaste_def)

text \<open>Claim C8 for an empty clipboard string and for an event without clipboard.\<close>

theorem C8_witness:
  "onPaste plainHost helloWorld (Instance 0) pasteNothing = (Normal, True, helloWorld) \<and>
   onPaste plainHost helloWorld (Instance 0) enterKey = (Normal, True, helloWorld)"
proof -
  have h1: "clipboardText helloWorld pasteNothing = None \<or> clipboardText helloWorld pasteNothing = Some []"
    by (simp add: clipboardText_def pasteNothing_def)
  have "clipboardText helloWorld enterKey = None" by code_simp
  then have h2: "clipboardText helloWorld enterKey = None \<or> clipboardText helloWorld enterKey = Some []"
    by simp
  show ?thesis
    using C8_paste_without_payload [OF h1] C8_paste_without_payload [OF h2] by simp
qed

text \<open>
  With a payload and no global named \<^verbatim>\<open>_this\<close>, \<^verbatim>\<open>onPaste\<close> always ends in the
  \<^verbatim>\<open>ReferenceError\<close> of its last statement but one: no callback has been called and
  \<^verbatim>\<open>preventDefault\<close> is not reached.
\<close>

lemma onPaste_reference_error:
  assumes "clipboardText p e = Some s" and "s \<noteq> []" and "global_this p = None"
  shows "fst (onPaste h p this e) = Throw ReferenceError \<and>
         \<not> fst (snd (onPaste h p this e)) \<and>
         calls (snd (snd (onPaste h p this e))) = calls p"
proof -
  define ps where "ps = getCaretOffsetWithin p (el this)"
  define esc where "esc = escapeHTML (inputValue h s)"
  define p2 where "p2 = highlight h (setInnerHTML h p (el this)
      (take (pos_start ps) (innerText h (elems p (el this))) @ esc @
       drop (pos_end ps) (innerText h (elems p (el this))))) (el this)"
  define r where "r = setCaretPositionWithin p2 (el this) (JNum (of_nat (pos_start ps + length esc)))"
  have n: "fst r = Normal" unfolding r_def by (rule setCaret_valid_Normal)
  have g: "global_this (snd r) = None"
    unfolding r_def by (simp add: setCaret_frame p2_def highlight_frame setInnerHTML_frame assms)
  have c: "calls (snd r) = calls p"
    unfolding r_def by (simp add: setCaret_frame p2_def highlight_frame setInnerHTML_frame)
  have "onPaste h p this e =
      (case r of (Throw err, p3) \<Rightarrow> (Throw err, False, p3)
            | (Normal, p3) \<Rightarrow>
                (case global_this p3 of
                   None \<Rightarrow> (Throw ReferenceError, False, p3)
                 | Some that \<Rightarrow>
                     (case trigger p3 ''change'' that of
                        (Throw err, p4) \<Rightarrow> (Throw err, False, p4)
                      | (Normal, p4) \<Rightarrow> (Normal, True, p4))))"
    using assms(1,2) by (simp add: onPaste_def Let_def r_def p2_def esc_def ps_def)
  also have "\<dots> = (Throw ReferenceError, False, snd r)"
    using n g by (cases r) simp
  finally show ?thesis using c by simp
qed

text \<open>
  Claim C2, evaluated at the specification's example: "hello world", caret at offset
  5, a function subscribed to \<^verbatim>\<open>change\<close>, paste of "!". The text becomes
  "hello! world" and the caret is put at offset 6, but the handler then throws
  \<^verbatim>\<open>ReferenceError\<close>: the subscribed function is not called and the default paste is
  not suppressed.
\<close>

theorem C2_paste_then_reference_error:
  "events helloWorld ''change'' = Some (JFunction 1) \<and>
   getCaretOffsetWithin helloWorld 0 = \<lparr>pos_start = 5, pos_end = 5\<rparr> \<and>
   fst (onPaste plainHost helloWorld (Instance 0) pasteBang) = Throw ReferenceError \<and>
   fst (snd (onPaste plainHost helloWorld (Instance 0) pasteBang)) = False \<and>
   calls (snd (snd (onPaste plainHost helloWorld (Instance 0) pasteBang))) = [] \<and>
   innerText plainHost (elems (snd (snd (onPaste plainHost helloWorld (Instance 0) pasteBang))) 0) =
     ''hello! world'' \<and>
   logicalText (elems (snd (snd (onPaste plainHost helloWorld (Instance 0) pasteBang))) 0) =
     ''hello! world'' \<and>
   getCaretOffsetWithin (snd (snd (onPaste plainHost helloWorld (Instance 0) pasteBang))) 0 =
     \<lparr>pos_start = 6, pos_end = 6\<rparr>"
  by code_simp




section \<open>Construction and teardown\<close>

text \<open>
  Line 351 writes the options into the shared \<^verbatim>\<open>settings\<close> before anything can throw
  past the three argument checks; the construction then completes exactly when
  \<^verbatim>\<open>classList.add\<close> accepts the class name.
\<close>

lemma CEHighlighter_settings:
  assumes "supports p" and "opts \<noteq> OptNotObject"
  shows "settings (snd (CEHighlighter h p (HTMLElement b) opts)) = extend (settings p) opts"
    and "fst (CEHighlighter h p (HTMLElement b) opts) =
           (case validateToken (className (extend (settings p) opts)) of
              None \<Rightarrow> Inr (Instance b)
            | Some err \<Rightarrow> Inl err)"
  using assms
  by (cases opts; cases "validateToken (className (extend (settings p) opts))";
      simp add: CEHighlighter_def Let_def bind_def classList_add_def)+

text \<open>
  Claim C9, for options that give \<^verbatim>\<open>className\<close> as a string, \<^verbatim>\<open>elastic\<close> as a boolean
  and \<^verbatim>\<open>regexs\<close> as a list of rules, each or none of them. There is one
  \<^verbatim>\<open>settings\<close> object for all instances. A construction that passes the three
  argument checks writes its options into it: afterwards the shared
  settings are the old ones overwritten by the options, the rule list is the one given
  in the options if there is one, and every later rendering, of any surface, uses the
  rule list now in the settings. The construction itself returns the instance when
  the class name now in the settings is a valid token, and throws what
  \<^verbatim>\<open>classList.add\<close> throws otherwise, the settings staying overwritten.
\<close>

theorem C9_settings_shared:
  assumes "supports p" and "opts \<noteq> OptNotObject"
  shows "settings (snd (CEHighlighter h p (HTMLElement b) opts)) = extend (settings p) opts \<and>
         fst (CEHighlighter h p (HTMLElement b) opts) =
           (case validateToken (className (extend (settings p) opts)) of
              None \<Rightarrow> Inr (Instance b)
            | Some err \<Rightarrow> Inl err) \<and>
         (\<forall>ob rs. opts = OptObject ob \<and> opt_regexs ob = Some rs \<longrightarrow>
            regexs (settings (snd (CEHighlighter h p (HTMLElement b) opts))) = rs) \<and>
         (\<forall>h' a. highlight h' (snd (CEHighlighter h p (HTMLElement b) opts)) a =
            setInnerHTML h' (snd (CEHighlighter h p (HTMLElement b) opts)) a
              (render h' (regexs (extend (settings p) opts))
                 (innerText h' (elems (snd (CEHighlighter h p (HTMLElement b) opts)) a))))"
  using CEHighlighter_settings [OF assms, of h b]
  by (auto simp: highlight_def extend_def)

text \<open>
  Claim C9 at two surfaces: surface 0, reading "#a", is rendered with the default
  rules; after a second instance is constructed on surface 1 with a \<^verbatim>\<open>regexs\<close>
  override, surface 0 is rendered with the override. A construction with the empty
  class name throws and has overwritten the class name all the same.
\<close>

theorem C9_witness:
  \<open>regexs (settings twoSurfaces) = regexs defaultSettings \<and>
   render plainHost (regexs (settings twoSurfaces)) (innerText plainHost (elems twoSurfaces 0)) =
     ''<span class="hashtag">#a</span>'' \<and>
   fst (CEHighlighter plainHost twoSurfaces (HTMLElement 1) regexsOverride) = Inr (Instance 1) \<and>
   regexs (settings (snd (CEHighlighter plainHost twoSurfaces (HTMLElement 1) regexsOverride))) =
     [\<lparr>pattern = LiteralRegExp ''#a'', template = ''<span class="tag">$&</span>''\<rparr>] \<and>
   highlight plainHost (snd (CEHighlighter plainHost twoSurfaces (HTMLElement 1) regexsOverride)) 0 =
     setInnerHTML plainHost (snd (CEHighlighter plainHost twoSurfaces (HTMLElement 1) regexsOverride)) 0
       ''<span class="tag">#a</span>'' \<and>
   fst (CEHighlighter plainHost twoSurfaces (HTMLElement 1) emptyClassName) = Inl SyntaxError \<and>
   className (settings (snd (CEHighlighter plainHost twoSurfaces (HTMLElement 1) emptyClassName))) = []\<close>
proof -
  have s: "supports twoSurfaces" by code_simp
  have n: "regexsOverride \<noteq> OptNotObject" by (simp add: regexsOverride_def)
  have n': "emptyClassName \<noteq> OptNotObject" by (simp add: emptyClassName_def)
  have a: "regexs (settings twoSurfaces) = regexs defaultSettings" by code_simp
  have b: \<open>render plainHost (regexs (settings twoSurfaces)) (innerText plainHost (elems twoSurfaces 0)) =
     ''<span class="hashtag">#a</span>''\<close> by code_simp
  have t: "innerText plainHost (elems (snd (CEHighlighter plainHost twoSurfaces (HTMLElement 1) regexsOverride)) 0) = ''#a''"
    by code_simp
  have e: \<open>regexs (extend (settings twoSurfaces) regexsOverride) =
      [\<lparr>pattern = LiteralRegExp ''#a'', template = ''<span class="tag">$&</span>''\<rparr>]\<close>
    by code_simp
  have r: \<open>render plainHost [\<lparr>pattern = LiteralRegExp ''#a'', template = ''<span class="tag">$&</span>''\<rparr>] ''#a'' =
      ''<span class="tag">#a</span>''\<close>
    by code_simp
  have v: "validateToken (className (extend (settings twoSurfaces) regexsOverride)) = None"
    by code_simp
  have v': "validateToken (className (extend (settings twoSurfaces) emptyClassName)) = Some SyntaxError"
    by code_simp
  have c: "className (extend (settings twoSurfaces) emptyClassName) = []" by code_simp
  note t1 = C9_settings_shared [OF s n, of plainHost 1]
  note t2 = C9_settings_shared [OF s n', of plainHost 1]
  from t1 have x1: "fst (CEHighlighter plainHost twoSurfaces (HTMLElement 1) regexsOverride) = Inr (Instance 1)"
    by (simp add: v)
  from t1 have x2: \<open>regexs (settings (snd (CEHighlighter plainHost twoSurfaces (HTMLElement 1) regexsOverride))) =
     [\<lparr>pattern = LiteralRegExp ''#a'', template = ''<span class="tag">$&</span>''\<rparr>]\<close>
    by (simp add: e)
  from t1 have "highlight plainHost (snd (CEHighlighter plainHost twoSurfaces (HTMLElement 1) regexsOverride)) 0 =
     setInnerHTML plainHost (snd (CEHighlighter plainHost twoSurfaces (HTMLElement 1) regexsOverride)) 0
       (render plainHost (regexs (extend (settings twoSurfaces) regexsOverride))
          (innerText plainHost (elems (snd (CEHighlighter plainHost twoSurfaces (HTMLElement 1) regexsOverride)) 0)))"
    by blast
  then have x3: \<open>highlight plainHost (snd (CEHighlighter plainHost twoSurfaces (HTMLElement 1) regexsOverride)) 0 =
     setInnerHTML plainHost (snd (CEHighlighter plainHost twoSurfaces (HTMLElement 1) regexsOverride)) 0
       ''<span class="tag">#a</span>''\<close>
    by (simp only: t e r)
  from t2 have x4: "fst (CEHighlighter plainHost twoSurfaces (HTMLElement 1) emptyClassName) = Inl SyntaxError"
    by (simp add: v')
  from t2 have x5: "className (settings (snd (CEHighlighter plainHost twoSurfaces (HTMLElement 1) emptyClassName))) = []"
    by (simp add: c)
  from a b x1 x2 x3 x4 x5 show ?thesis by blast
qed

text \<open>
  Claim C3 fails as stated. After two calls of \<^verbatim>\<open>destroy()\<close> the function subscribed
  to \<^verbatim>\<open>destroy\<close> has been called twice, and the surface still carries its three
  listeners (\<^verbatim>\<open>bind\<close> makes a new function at each call, so \<^verbatim>\<open>removeEventListener\<close>
  finds nothing to remove): the instance is not inert and the callback is not limited
  to one call. When the class name in the shared settings is not a valid token (here
  the empty string, left by a failed construction), \<^verbatim>\<open>destroy()\<close> throws in
  \<^verbatim>\<open>classList.remove\<close> and the subscribed function is not called at all. And the
  class that \<^verbatim>\<open>destroy()\<close> removes is the one named by the shared settings at that
  moment: after another construction has changed the name, the class added at
  construction stays on the surface.
\<close>

theorem C3_counterexample:
  "events subscribed ''destroy'' = Some (JFunction 7) \<and>
   calls subscribed = [] \<and>
   calls destroyedTwice =
     [\<lparr>evtName = ''destroy'', fn = 7, ctx = Instance 0\<rparr>,
      \<lparr>evtName = ''destroy'', fn = 7, ctx = Instance 0\<rparr>] \<and>
   map evtype (listeners (elems destroyedTwice 0)) = [''paste'', ''input'', ''keypress''] \<and>
   map (target \<circ> callback) (listeners (elems destroyedTwice 0)) = [OnPaste, OnInput, OnKeyPress] \<and>
   events spoiled ''destroy'' = Some (JFunction 7) \<and>
   fst (destroy spoiled (Instance 0)) = Throw SyntaxError \<and>
   calls (snd (destroy spoiled (Instance 0))) = [] \<and>
   classList (elems renamed 0) = [''cehighlighter''] \<and>
   className (settings renamed) = ''other'' \<and>
   fst (destroy renamed (Instance 0)) = Normal \<and>
   classList (elems (snd (destroy renamed (Instance 0))) 0) = [''cehighlighter'']"
  by code_simp

text \<open>The two outcomes of \<^verbatim>\<open>destroy\<close>, by the class name in the shared settings.\<close>

lemma destroy_unfold:
  assumes "validateToken (className (settings p)) = None"
  shows "destroy p this =
     trigger (p\<lparr>nextFn := Suc (Suc (nextFn p)),
               elems := (elems p)((el this) :=
                 removeEventListener
                   (removeEventListener
                      ((elems p (el this))\<lparr>contenteditable := None,
                         classList := filter (\<lambda>x. x \<noteq> className (settings p))
                                        (classList (elems p (el this)))\<rparr>)
                      ''paste'' \<lparr>fnid = nextFn p, target = OnPaste, bound_this = this\<rparr>)
                   ''input'' \<lparr>fnid = Suc (nextFn p), target = OnInput, bound_this = this\<rparr>)\<rparr>)
       ''destroy'' this"
  using assms by (simp add: destroy_def classList_remove_def bind_def Let_def)

lemma destroy_throw:
  assumes "validateToken (className (settings p)) = Some err"
  shows "destroy p this =
     (Throw err, p\<lparr>elems := (elems p)((el this) := (elems p (el this))\<lparr>contenteditable := None\<rparr>)\<rparr>)"
  using assms by (simp add: destroy_def classList_remove_def Let_def)

lemma events_CEHighlighter: "events (snd (CEHighlighter h p elArg opts)) = events p"
  by (simp add: CEHighlighter_def Let_def bind_def split: elarg.splits optarg.splits sum.splits)

lemma trigger_events: "events (snd (trigger p name this)) = events p"
  by (simp add: trigger_def split: option.splits jsval.splits)

lemma events_destroy: "events (snd (destroy p this)) = events p"
  by (cases "validateToken (className (settings p))")
     (simp_all add: destroy_unfold destroy_throw trigger_events)

text \<open>
  No listener is removed by \<^verbatim>\<open>destroy\<close>: the two functions handed to
  \<^verbatim>\<open>removeEventListener\<close> are new.
\<close>

lemma filter_fresh_listener:
  assumes "\<forall>l \<in> set ls. fnid (callback l) < n" and "n \<le> fnid f"
  shows "filter (\<lambda>l. \<not> sameListener ty f l) ls = ls"
  using assms by (induction ls) (auto simp: sameListener_def)

lemma destroy_keeps_listeners:
  assumes "\<forall>l \<in> set (listeners (elems p (el this))). fnid (callback l) < nextFn p"
  shows "listeners (elems (snd (destroy p this)) (el this)) = listeners (elems p (el this))"
proof (cases "validateToken (className (settings p))")
  case (Some err)
  then show ?thesis by (simp add: destroy_throw)
next
  case None
  have "listeners (elems (snd (destroy p this)) (el this)) =
      filter (\<lambda>l. \<not> sameListener ''input'' \<lparr>fnid = Suc (nextFn p), target = OnInput, bound_this = this\<rparr> l)
        (filter (\<lambda>l. \<not> sameListener ''paste'' \<lparr>fnid = nextFn p, target = OnPaste, bound_this = this\<rparr> l)
           (listeners (elems p (el this))))"
    by (simp add: destroy_unfold [OF None] trigger_frame removeEventListener_def)
  also have "\<dots> = listeners (elems p (el this))"
    using assms by (simp add: filter_fresh_listener [where n = "nextFn p"])
  finally show ?thesis .
qed

text \<open>
  Claim C3 as amended. Every call of \<^verbatim>\<open>destroy()\<close> strips the editable affordance
  (the \<^verbatim>\<open>contenteditable\<close> attribute is removed) and leaves the subscriptions as they
  were. When the class name in the shared settings is a valid token, the call also
  removes the class of that name from the surface and calls the function subscribed to
  \<^verbatim>\<open>destroy\<close>, if any, once with the instance as \<^verbatim>\<open>this\<close>: once per call, so again
  at every later call. When it is not, the call throws what \<^verbatim>\<open>classList.remove\<close>
  throws and no subscribed function is called.
\<close>

theorem C3_destroy_strips_and_fires_each_call:
  "contenteditable (elems (snd (destroy p this)) (el this)) = None \<and>
   events (snd (destroy p this)) = events p \<and>
   (validateToken (className (settings p)) = None \<longrightarrow>
      className (settings p) \<notin> set (classList (elems (snd (destroy p this)) (el this))) \<and>
      calls (snd (destroy p this)) =
        calls p @ (case events p ''destroy'' of
                     Some (JFunction f) \<Rightarrow> [\<lparr>evtName = ''destroy'', fn = f, ctx = this\<rparr>]
                   | _ \<Rightarrow> [])) \<and>
   (\<forall>err. validateToken (className (settings p)) = Some err \<longrightarrow>
      fst (destroy p this) = Throw err \<and> calls (snd (destroy p this)) = calls p)"
proof (cases "validateToken (className (settings p))")
  case (Some err)
  then show ?thesis by (simp add: destroy_throw)
next
  case None
  show ?thesis
    unfolding destroy_unfold [OF None]
    by (simp add: None trigger_def removeEventListener_def isUndefined_def
        split: option.splits jsval.splits)
qed

text \<open>
  Claim C3 as amended, at one call and at two calls on an instance with a subscribed
  function, and at a call after a failed construction left the empty class name.
\<close>

theorem C3_witness:
  "validateToken (className (settings subscribed)) = None \<and>
   contenteditable (elems subscribed 0) = Some ''true'' \<and>
   contenteditable (elems (snd (destroy subscribed (Instance 0))) 0) = None \<and>
   calls (snd (destroy subscribed (Instance 0))) =
     [\<lparr>evtName = ''destroy'', fn = 7, ctx = Instance 0\<rparr>] \<and>
   calls (snd (destroy (snd (destroy subscribed (Instance 0))) (Instance 0))) =
     [\<lparr>evtName = ''destroy'', fn = 7, ctx = Instance 0\<rparr>,
      \<lparr>evtName = ''destroy'', fn = 7, ctx = Instance 0\<rparr>] \<and>
   validateToken (className (settings spoiled)) = Some SyntaxError \<and>
   fst (destroy spoiled (Instance 0)) = Throw SyntaxError \<and>
   calls (snd (destroy spoiled (Instance 0))) = calls spoiled"
proof -
  have v: "validateToken (className (settings subscribed)) = None" by code_simp
  have ce: "contenteditable (elems subscribed 0) = Some ''true''" by code_simp
  have ev: "events subscribed ''destroy'' = Some (JFunction 7)" by code_simp
  have c0: "calls subscribed = []" by code_simp
  have v': "validateToken (className (settings spoiled)) = Some SyntaxError" by code_simp
  note t1 = C3_destroy_strips_and_fires_each_call [of subscribed "Instance 0"]
  note t2 = C3_destroy_strips_and_fires_each_call [of "snd (destroy subscribed (Instance 0))" "Instance 0"]
  note t3 = C3_destroy_strips_and_fires_each_call [of spoiled "Instance 0"]
  from t1 have x1: "contenteditable (elems (snd (destroy subscribed (Instance 0))) 0) = None"
    by simp
  from t1 v ev c0 have x2: "calls (snd (destroy subscribed (Instance 0))) =
     [\<lparr>evtName = ''destroy'', fn = 7, ctx = Instance 0\<rparr>]"
    by simp
  from t1 have e1: "events (snd (destroy subscribed (Instance 0))) = events subscribed" by blast
  have s1: "settings (snd (destroy subscribed (Instance 0))) = settings subscribed" by code_simp
  from t2 v ev e1 s1 x2
  have x3: "calls (snd (destroy (snd (destroy subscribed (Instance 0))) (Instance 0))) =
     [\<lparr>evtName = ''destroy'', fn = 7, ctx = Instance 0\<rparr>,
      \<lparr>evtName = ''destroy'', fn = 7, ctx = Instance 0\<rparr>]"
    by simp
  from t3 v' have x4: "fst (destroy spoiled (Instance 0)) = Throw SyntaxError"
    and x5: "calls (snd (destroy spoiled (Instance 0))) = calls spoiled"
    by simp_all
  from v ce x1 x2 x3 v' x4 x5 show ?thesis by blast
qed

end
